theory Spec2Isabelle
  imports Main "HOL-Library.Multiset"
begin

section \<open>The storage layer the two models talk to\<close>

text \<open>
  \<^verbatim>\<open>models/User.js\<close> and \<^verbatim>\<open>models/Job.js\<close> hold a Knex handle \<open>this.db\<close> and
  send it one statement per method.  The handle is modelled as a value \<open>db\<close> that every
  method takes and returns: two optional tables (a table is absent until
  \<open>createTable\<close> has run), each with the schema it was created with, its rows in
  storage order and its autoincrement counter.  A statement that fails returns an error
  and no new database: the old one stays as it was.
\<close>

subsection \<open>Schemas, as the table builder declares them\<close>

datatype cmp_op = LessEq | GreaterEq

datatype col_kind = IncrementsT | StringT | EnumT "string list" | IntegerT | TimestampT

datatype col_attr =
    Primary
  | NotNullable
  | CheckLength cmp_op nat
  | Unique
  | DefaultTo string
  | DefaultNow
  | References string string
  | OnDeleteCascade

record column =
  col_name :: string
  col_kind :: col_kind
  col_attrs :: "col_attr list"

text \<open>
  The column builder keeps its modifiers under the name of the method that set them, so
  a method called twice on one column counts once, with the arguments of the last call:
  of \<open>checkLength(">=", 3).checkLength("<=", 50)\<close> the created column has the second
  check only.  \<open>modifiers\<close> takes the chained calls in the order written and returns
  what the column is created with.
\<close>

fun same_method :: "col_attr \<Rightarrow> col_attr \<Rightarrow> bool" where
  "same_method (CheckLength op1 n1) (CheckLength op2 n2) = True"
| "same_method (DefaultTo v1) (DefaultTo v2) = True"
| "same_method (DefaultTo v) DefaultNow = True"
| "same_method DefaultNow (DefaultTo v) = True"
| "same_method (References c1 t1) (References c2 t2) = True"
| "same_method a b = (a = b)"

fun modifiers :: "col_attr list \<Rightarrow> col_attr list" where
  "modifiers [] = []"
| "modifiers (a # as) =
     (if list_ex (same_method a) as then modifiers as else a # modifiers as)"

text \<open>\<open>sch_checks\<close> are the table-level \<open>check (column LIKE pattern)\<close> constraints.\<close>

record schema =
  sch_columns :: "column list"
  sch_checks :: "(string \<times> string) list"

definition attrs_of :: "schema \<Rightarrow> string \<Rightarrow> col_attr list" where
  "attrs_of s c = concat (map col_attrs (filter (\<lambda>k. col_name k = c) (sch_columns s)))"

definition kinds_of :: "schema \<Rightarrow> string \<Rightarrow> col_kind list" where
  "kinds_of s c = map col_kind (filter (\<lambda>k. col_name k = c) (sch_columns s))"

text \<open>
  The declared default of a text column, which the engine stores when an insert leaves
  the column out, and the default of a timestamp column.
\<close>

fun default_text :: "col_attr list \<Rightarrow> string option" where
  "default_text [] = None"
| "default_text (DefaultTo v # as) = Some v"
| "default_text (a # as) = default_text as"

definition default_now :: "col_attr list \<Rightarrow> nat \<Rightarrow> nat option" where
  "default_now as now = (if DefaultNow \<in> set as then Some now else None)"

subsection \<open>Rows\<close>

text \<open>
  A text or timestamp cell is \<open>None\<close> when it holds SQL \<open>NULL\<close>.  The \<open>id\<close> columns are
  the integer primary keys the engine assigns; \<open>created_by\<close> is the integer the caller
  passes.
\<close>

record user =
  u_id :: nat
  u_name :: "string option"
  u_email :: "string option"
  u_password :: "string option"

record job =
  j_id :: nat
  j_role :: "string option"
  j_company :: "string option"
  j_status :: "string option"
  j_created_by :: nat
  j_created_at :: "nat option"
  j_updated_at :: "nat option"

record 'r table =
  t_schema :: schema
  t_rows :: "'r list"
  t_seq :: nat

text \<open>
  Two settings of the connection that \<^verbatim>\<open>connect/connect.js\<close> opens are fields of the
  handle, and no method changes them: whether the engine enforces foreign keys (SQLite
  does so only when the connection turns the pragma on), and Knex's \<open>useNullAsDefault\<close>.
  The SQLite client of Knex has no way to send a column's default for a JavaScript
  \<open>undefined\<close> in an insert: with \<open>useNullAsDefault\<close> it sends \<open>NULL\<close>, without it it
  refuses to build the statement.
\<close>

record db =
  users :: "user table option"
  jobs :: "job table option"
  foreign_keys :: bool
  useNullAsDefault :: bool

datatype db_error =
    NoSuchTable string
  | UndefinedBinding
  | NotNullViolation string
  | CheckViolation string
  | UniqueViolation string
  | ForeignKeyViolation string

subsection \<open>Constraint checking\<close>

text \<open>
  SQL \<open>LIKE\<close>: \<open>%\<close> matches any run of characters, \<open>_\<close> any one character, every
  other pattern character itself.  (The engine compares ASCII letters without regard to
  case; the one pattern the schemas use, \<open>%@%.%\<close>, has no letter.)
\<close>

fun like :: "string \<Rightarrow> string \<Rightarrow> bool" where
  "like [] [] = True"
| "like [] (c # cs) = False"
| "like (p # ps) [] = (p = CHR ''%'' \<and> like ps [])"
| "like (p # ps) (c # cs) =
     (if p = CHR ''%'' then like ps (c # cs) \<or> like (p # ps) cs
      else if p = CHR ''_'' then like ps cs
      else p = c \<and> like ps cs)"

text \<open>SQL \<open>length\<close> counts the characters before the first NUL character.\<close>

definition sql_length :: "string \<Rightarrow> nat" where
  "sql_length v = length (takeWhile (\<lambda>c. c \<noteq> CHR 0x00) v)"

fun length_ok :: "col_attr \<Rightarrow> string \<Rightarrow> bool" where
  "length_ok (CheckLength LessEq n) v = (sql_length v \<le> n)"
| "length_ok (CheckLength GreaterEq n) v = (n \<le> sql_length v)"
| "length_ok a v = True"

fun enum_ok :: "col_kind \<Rightarrow> string \<Rightarrow> bool" where
  "enum_ok (EnumT vs) v = (v \<in> set vs)"
| "enum_ok k v = True"

type_synonym cells = "(string \<times> string option) list"

text \<open>A \<open>CHECK\<close> on a \<open>NULL\<close> cell does not fail.\<close>

fun cell_ok :: "schema \<Rightarrow> string \<times> string option \<Rightarrow> bool" where
  "cell_ok s (c, None) = True"
| "cell_ok s (c, Some v) =
     (list_all (\<lambda>a. length_ok a v) (attrs_of s c) \<and> list_all (\<lambda>k. enum_ok k v) (kinds_of s c))"

fun like_ok :: "cells \<Rightarrow> string \<times> string \<Rightarrow> bool" where
  "like_ok cs (c, pat) = (case map_of cs c of Some (Some v) \<Rightarrow> like pat v | _ \<Rightarrow> True)"

fun null_refused :: "schema \<Rightarrow> string \<times> string option \<Rightarrow> bool" where
  "null_refused s (c, v) = (v = None \<and> NotNullable \<in> set (attrs_of s c))"

fun duplicate :: "schema \<Rightarrow> cells list \<Rightarrow> string \<times> string option \<Rightarrow> bool" where
  "duplicate s others (c, None) = False"
| "duplicate s others (c, Some v) =
     (Unique \<in> set (attrs_of s c) \<and> list_ex (\<lambda>other. map_of other c = Some (Some v)) others)"

text \<open>
  The violations of the cells a statement writes, against the schema and the other rows
  of the table, in the order the engine reports them: \<open>NOT NULL\<close>, then \<open>CHECK\<close>, then
  \<open>UNIQUE\<close>.  An insert writes every cell of the new row; an update writes the columns
  it sets, and the engine checks no others.
\<close>

definition violations :: "schema \<Rightarrow> cells list \<Rightarrow> cells \<Rightarrow> db_error list" where
  "violations s others cs =
     map (NotNullViolation \<circ> fst) (filter (null_refused s) cs)
     @ map (CheckViolation \<circ> fst) (filter (\<lambda>cell. \<not> cell_ok s cell) cs)
     @ map (CheckViolation \<circ> fst) (filter (\<lambda>chk. \<not> like_ok cs chk) (sch_checks s))
     @ map (UniqueViolation \<circ> fst) (filter (duplicate s others) cs)"

definition user_cells :: "user \<Rightarrow> cells" where
  "user_cells u = [(''name'', u_name u), (''email'', u_email u), (''password'', u_password u)]"

definition job_cells :: "job \<Rightarrow> cells" where
  "job_cells j = [(''role'', j_role j), (''company'', j_company j), (''status'', j_status j)]"

text \<open>The next autoincrement key: one more than every key the table has held.\<close>

definition next_id :: "nat list \<Rightarrow> nat \<Rightarrow> nat" where
  "next_id ids seq = Suc (fold max ids seq)"

text \<open>
  The value an insert sends for one key of the object it is given; \<open>None\<close> on the left is
  \<open>undefined\<close>, \<open>None\<close> on the right is \<open>NULL\<close>.
\<close>

fun bind_value :: "bool \<Rightarrow> string option \<Rightarrow> db_error + string option" where
  "bind_value nullAsDefault (Some v) = Inr (Some v)"
| "bind_value True None = Inr None"
| "bind_value False None = Inl UndefinedBinding"

section \<open>models/User.js\<close>

text \<open>
  \<^verbatim>\<open>
  async initTable() {
    const tableExists = await this.db.schema.hasTable("users");
    if (!tableExists) {
      await this.db.schema.createTable("users", (table) => {
        table.increments("id").primary();
        table.string("name", 50).notNullable().checkLength(">=", 3).checkLength("<=", 50);
        table.string("email").notNullable().unique();
        table.check('email LIKE "%@%.%"');
        table.string("password").notNullable().checkLength(">=", 6);
      });
    }
  }
  \<close>
\<close>

definition users_schema :: schema where
  "users_schema =
     \<lparr>sch_columns =
        [\<lparr>col_name = ''id'', col_kind = IncrementsT, col_attrs = modifiers [Primary]\<rparr>,
         \<lparr>col_name = ''name'', col_kind = StringT,
          col_attrs = modifiers [NotNullable, CheckLength GreaterEq 3, CheckLength LessEq 50]\<rparr>,
         \<lparr>col_name = ''email'', col_kind = StringT, col_attrs = modifiers [NotNullable, Unique]\<rparr>,
         \<lparr>col_name = ''password'', col_kind = StringT,
          col_attrs = modifiers [NotNullable, CheckLength GreaterEq 6]\<rparr>],
      sch_checks = [(''email'', ''%@%.%'')]\<rparr>"

definition User_initTable :: "db \<Rightarrow> db" where
  "User_initTable d =
     (let tableExists = (users d \<noteq> None) in
      if \<not> tableExists
      then d\<lparr>users := Some \<lparr>t_schema = users_schema, t_rows = [], t_seq = 0\<rparr>\<rparr>
      else d)"

text \<open>
  \<^verbatim>\<open>
  async createUser({ name, email, password }) {
    const salt = await bcrypt.genSalt(10);
    const hashedPassword = await bcrypt.hash(password, salt);
    const [id] = await this.db("users")
      .insert({ name, email, password: hashedPassword }).returning("id");
    return { id, name, email, hashedPassword };
  }
  \<close>
  The salt \<open>bcrypt.genSalt\<close> draws is an argument, and \<open>bcrypt.hash\<close> is the function
  \<open>hash\<close>: the library is not part of the repository.  With \<open>returning("id")\<close> the
  insert resolves to an array of objects \<open>{ id: n }\<close>, so the \<open>id\<close> the method returns is
  such an object, not the number.
\<close>

record returned_id =
  id_of :: nat

record user_args =
  a_name :: string
  a_email :: string
  a_password :: string

record created_user =
  cu_id :: returned_id
  cu_name :: string
  cu_email :: string
  cu_hashedPassword :: string

definition insert_user :: "db \<Rightarrow> string option \<Rightarrow> string option \<Rightarrow> string option
    \<Rightarrow> db_error + (db \<times> nat)" where
  "insert_user d name email password =
     (case users d of
        None \<Rightarrow> Inl (NoSuchTable ''users'')
      | Some t \<Rightarrow>
          (let row = \<lparr>u_id = next_id (map u_id (t_rows t)) (t_seq t),
                      u_name = name, u_email = email, u_password = password\<rparr>
           in case violations (t_schema t) (map user_cells (t_rows t)) (user_cells row) of
                e # _ \<Rightarrow> Inl e
              | [] \<Rightarrow> Inr (d\<lparr>users := Some (t\<lparr>t_rows := t_rows t @ [row], t_seq := u_id row\<rparr>)\<rparr>,
                            u_id row)))"

definition createUser :: "(string \<Rightarrow> string \<Rightarrow> string) \<Rightarrow> string \<Rightarrow> db \<Rightarrow> user_args
    \<Rightarrow> db_error + (db \<times> created_user)" where
  "createUser hash salt d a =
     (let hashedPassword = hash (a_password a) salt in
      case insert_user d (Some (a_name a)) (Some (a_email a)) (Some hashedPassword) of
        Inl e \<Rightarrow> Inl e
      | Inr (d', uid) \<Rightarrow>
          Inr (d', \<lparr>cu_id = \<lparr>id_of = uid\<rparr>, cu_name = a_name a, cu_email = a_email a,
                    cu_hashedPassword = hashedPassword\<rparr>))"

text \<open>
  \<^verbatim>\<open>
  async findByEmail(email) {
    const user = await this.db("users").where("email", email).first();
    return user;
  }
  \<close>
\<close>

definition findByEmail :: "db \<Rightarrow> string \<Rightarrow> db_error + user option" where
  "findByEmail d email =
     (case users d of
        None \<Rightarrow> Inl (NoSuchTable ''users'')
      | Some t \<Rightarrow> Inr (find (\<lambda>u. u_email u = Some email) (t_rows t)))"

text \<open>The database after a statement: a failed statement leaves it as it was.\<close>

definition db_after :: "db \<Rightarrow> db_error + (db \<times> 'a) \<Rightarrow> db" where
  "db_after d r = (case r of Inl e \<Rightarrow> d | Inr (d', x) \<Rightarrow> d')"

text \<open>
  \<^verbatim>\<open>
  async comparePassword(candidatePassword, userPassword) {
    const isMatch = await bcrypt.compare(candidatePassword, userPassword);
    return isMatch;
  }
  \<close>
  The method hands both arguments to \<open>bcrypt.compare\<close> and returns its answer: what that
  answer is for a given password and hash is the library's business, and \<open>compare\<close> is
  an argument here.
\<close>

definition comparePassword :: "(string \<Rightarrow> string \<Rightarrow> 'r) \<Rightarrow> string \<Rightarrow> string \<Rightarrow> 'r" where
  "comparePassword compare candidatePassword userPassword =
     (let isMatch = compare candidatePassword userPassword in isMatch)"

text \<open>
  \<^verbatim>\<open>
  createJWT(user) {
    return jwt.sign({ userId: user.id, name: user.name }, process.env.JWT_SECRET,
                    { expiresIn: "30d" });
  }
  \<close>
  \<open>jwt.sign\<close> refuses a missing or empty secret; otherwise it adds the issue time \<open>iat\<close>
  (the clock, in seconds) and the expiry \<open>exp = iat + expiresIn\<close> to the payload and signs
  the result with the secret.  The signing function is the argument \<open>mac\<close>, the
  environment is a map from variable names to values.
\<close>

datatype json = JNum nat | JStr string | JNull

record 'sig token =
  tk_payload :: "(string \<times> json) list"
  tk_signature :: 'sig

datatype jwt_error = SecretMissing

definition jwt_sign :: "(string \<Rightarrow> (string \<times> json) list \<Rightarrow> 'sig) \<Rightarrow> nat \<Rightarrow> (string \<times> json) list
    \<Rightarrow> string option \<Rightarrow> nat \<Rightarrow> jwt_error + 'sig token" where
  "jwt_sign mac now payload secretOrPrivateKey expiresIn =
     (case secretOrPrivateKey of
        None \<Rightarrow> Inl SecretMissing
      | Some key \<Rightarrow>
          if key = [] then Inl SecretMissing
          else (let claims = payload @ [(''iat'', JNum now), (''exp'', JNum (now + expiresIn))]
                in Inr \<lparr>tk_payload = claims, tk_signature = mac key claims\<rparr>))"

definition days :: "nat \<Rightarrow> nat" where
  "days n = n * 24 * 60 * 60"

definition json_text :: "string option \<Rightarrow> json" where
  "json_text v = (case v of None \<Rightarrow> JNull | Some s \<Rightarrow> JStr s)"

definition createJWT :: "(string \<Rightarrow> (string \<times> json) list \<Rightarrow> 'sig) \<Rightarrow> (string \<rightharpoonup> string) \<Rightarrow> nat
    \<Rightarrow> user \<Rightarrow> jwt_error + 'sig token" where
  "createJWT mac env now user =
     jwt_sign mac now [(''userId'', JNum (u_id user)), (''name'', json_text (u_name user))]
       (env ''JWT_SECRET'') (days 30)"

section \<open>models/Job.js\<close>

text \<open>
  \<^verbatim>\<open>
  async initTable() {
    const tableExists = await this.db.schema.hasTable("jobs");
    if (!tableExists) {
      await this.db.schema.createTable("jobs", (table) => {
        table.increments("id").primary();
        table.string("role").notNullable().checkLength("<=", 100);
        table.string("company").notNullable().checkLength("<=", 50);
        table.enum("status", ["pending", "interview", "decline"])
          .notNullable().defaultTo("pending");
        table.integer("created_by").notNullable()
          .references("id").inTable("users").onDelete("CASCADE");
        table.timestamp("created_at").defaultTo(this.db.fn.now());
        table.timestamp("updated_at").defaultTo(this.db.fn.now());
      });
    }
  }
  \<close>
\<close>

definition jobs_schema :: schema where
  "jobs_schema =
     \<lparr>sch_columns =
        [\<lparr>col_name = ''id'', col_kind = IncrementsT, col_attrs = modifiers [Primary]\<rparr>,
         \<lparr>col_name = ''role'', col_kind = StringT,
          col_attrs = modifiers [NotNullable, CheckLength LessEq 100]\<rparr>,
         \<lparr>col_name = ''company'', col_kind = StringT,
          col_attrs = modifiers [NotNullable, CheckLength LessEq 50]\<rparr>,
         \<lparr>col_name = ''status'', col_kind = EnumT [''pending'', ''interview'', ''decline''],
          col_attrs = modifiers [NotNullable, DefaultTo ''pending'']\<rparr>,
         \<lparr>col_name = ''created_by'', col_kind = IntegerT,
          col_attrs = modifiers [NotNullable, References ''id'' ''users'', OnDeleteCascade]\<rparr>,
         \<lparr>col_name = ''created_at'', col_kind = TimestampT, col_attrs = modifiers [DefaultNow]\<rparr>,
         \<lparr>col_name = ''updated_at'', col_kind = TimestampT, col_attrs = modifiers [DefaultNow]\<rparr>],
      sch_checks = []\<rparr>"

definition Job_initTable :: "db \<Rightarrow> db" where
  "Job_initTable d =
     (let tableExists = (jobs d \<noteq> None) in
      if \<not> tableExists
      then d\<lparr>jobs := Some \<lparr>t_schema = jobs_schema, t_rows = [], t_seq = 0\<rparr>\<rparr>
      else d)"

text \<open>
  \<^verbatim>\<open>
  async createJob({ role, company, status, createdBy }) {
    const [id] = await this.db("jobs").insert({ role, company, status, created_by: createdBy });
    return { id, role, company, status, createdBy };
  }
  \<close>
  An argument the caller leaves out is \<open>undefined\<close>: \<open>None\<close> here.  The insert is given
  all four keys whatever their values, so no column the method names is ever left to
  its default; only the two timestamps are.  The object returned is the arguments with
  the new key in front.
\<close>

record job_args =
  a_role :: "string option"
  a_company :: "string option"
  a_status :: "string option"
  a_createdBy :: nat

record created_job =
  r_id :: nat
  r_role :: "string option"
  r_company :: "string option"
  r_status :: "string option"
  r_createdBy :: nat

text \<open>
  With foreign keys enforced, the statement needs the table \<open>created_by\<close> refers to, and
  a \<open>created_by\<close> that is no key of it is refused once the row has passed its own
  constraints.
\<close>

definition fk_declared :: "db \<Rightarrow> schema \<Rightarrow> bool" where
  "fk_declared d s =
     (foreign_keys d \<and> References ''id'' ''users'' \<in> set (attrs_of s ''created_by''))"

definition fk_refused :: "db \<Rightarrow> schema \<Rightarrow> nat \<Rightarrow> bool" where
  "fk_refused d s v =
     (fk_declared d s
      \<and> (case users d of None \<Rightarrow> True | Some ut \<Rightarrow> v \<notin> set (map u_id (t_rows ut))))"

text \<open>
  Knex builds the statement first, which is where an \<open>undefined\<close> value is refused; then
  the engine looks the tables up, checks the row, and checks the foreign key.
\<close>

definition insert_job :: "db \<Rightarrow> nat \<Rightarrow> string option \<Rightarrow> string option \<Rightarrow> string option \<Rightarrow> nat
    \<Rightarrow> db_error + (db \<times> nat)" where
  "insert_job d now role company status created_by =
     (case bind_value (useNullAsDefault d) role of
        Inl e \<Rightarrow> Inl e
      | Inr vrole \<Rightarrow>
     (case bind_value (useNullAsDefault d) company of
        Inl e \<Rightarrow> Inl e
      | Inr vcompany \<Rightarrow>
     (case bind_value (useNullAsDefault d) status of
        Inl e \<Rightarrow> Inl e
      | Inr vstatus \<Rightarrow>
     (case jobs d of
        None \<Rightarrow> Inl (NoSuchTable ''jobs'')
      | Some t \<Rightarrow>
          if fk_declared d (t_schema t) \<and> users d = None then Inl (NoSuchTable ''users'')
          else
          (let s = t_schema t;
               row = \<lparr>j_id = next_id (map j_id (t_rows t)) (t_seq t),
                      j_role = vrole, j_company = vcompany, j_status = vstatus,
                      j_created_by = created_by,
                      j_created_at = default_now (attrs_of s ''created_at'') now,
                      j_updated_at = default_now (attrs_of s ''updated_at'') now\<rparr>
           in case violations s (map job_cells (t_rows t)) (job_cells row) of
                e # _ \<Rightarrow> Inl e
              | [] \<Rightarrow>
                  if fk_refused d s created_by then Inl (ForeignKeyViolation ''created_by'')
                  else Inr (d\<lparr>jobs := Some (t\<lparr>t_rows := t_rows t @ [row], t_seq := j_id row\<rparr>)\<rparr>,
                            j_id row))))))"

definition createJob :: "db \<Rightarrow> nat \<Rightarrow> job_args \<Rightarrow> db_error + (db \<times> created_job)" where
  "createJob d now a =
     (case insert_job d now (a_role a) (a_company a) (a_status a) (a_createdBy a) of
        Inl e \<Rightarrow> Inl e
      | Inr (d', new_id) \<Rightarrow>
          Inr (d', \<lparr>r_id = new_id, r_role = a_role a, r_company = a_company a,
                    r_status = a_status a, r_createdBy = a_createdBy a\<rparr>))"

text \<open>
  \<^verbatim>\<open>
  async getAllJobs({ userId }) {
    return this.db("jobs")
      .select("jobs.*", "users.name as creator_name")
      .join("users", "jobs.created_by", "users.id")
      .where("created_by", userId);
  }
  \<close>
  An inner join: one result row for every pair of a job and a user with
  \<open>jobs.created_by = users.id\<close>, then the \<open>where\<close>, then the selected columns.
\<close>

record listed_job = job +
  creator_name :: "string option"

definition join_users :: "job list \<Rightarrow> user list \<Rightarrow> (job \<times> user) list" where
  "join_users js us = concat (map (\<lambda>j. map (Pair j) (filter (\<lambda>u. j_created_by j = u_id u) us)) js)"

definition select_listed :: "job \<times> user \<Rightarrow> listed_job" where
  "select_listed ju = job.extend (fst ju) (listed_job.fields (u_name (snd ju)))"

definition getAllJobs :: "db \<Rightarrow> nat \<Rightarrow> db_error + listed_job list" where
  "getAllJobs d userId =
     (case jobs d of
        None \<Rightarrow> Inl (NoSuchTable ''jobs'')
      | Some jt \<Rightarrow>
          (case users d of
             None \<Rightarrow> Inl (NoSuchTable ''users'')
           | Some ut \<Rightarrow>
               Inr (map select_listed
                      (filter (\<lambda>ju. j_created_by (fst ju) = userId)
                         (join_users (t_rows jt) (t_rows ut))))))"

text \<open>
  \<^verbatim>\<open>
  async getSingleJob({ jobId, userId }) {
    return this.db("jobs").where({ id: jobId, created_by: userId }).first();
  }
  \<close>
  \<open>first()\<close> gives the first matching row, or \<open>undefined\<close> (\<open>None\<close>) when there is none.
\<close>

definition owned :: "nat \<Rightarrow> nat \<Rightarrow> job \<Rightarrow> bool" where
  "owned jobId userId j = (j_id j = jobId \<and> j_created_by j = userId)"

definition getSingleJob :: "db \<Rightarrow> nat \<Rightarrow> nat \<Rightarrow> db_error + job option" where
  "getSingleJob d jobId userId =
     (case jobs d of
        None \<Rightarrow> Inl (NoSuchTable ''jobs'')
      | Some t \<Rightarrow> Inr (find (owned jobId userId) (t_rows t)))"

text \<open>
  \<^verbatim>\<open>
  async updateJob({ jobId, userId }, payload) {
    const updates = {
      ...(payload.role && { role: payload.role }), // Only add if truthy
      ...(payload.company && { company: payload.company }),
      ...(payload.status && { status: payload.status }),
      updated_at: this.db.raw("CURRENT_TIMESTAMP"),
    };
    const [updatedJob] = await this.db("jobs")
      .where({ id: jobId, created_by: userId })
      .update(updates)
      .returning("*");
    return updatedJob;
  }
  \<close>
  A payload field is a string or is missing (\<open>None\<close>); the empty string and a missing
  field are the falsy ones.  In \<open>updates\<close>, \<open>None\<close> says that the object has no such key.
  The engine checks, for every row the statement matches, the constraints of the
  columns the statement sets.
\<close>

record payload =
  p_role :: "string option"
  p_company :: "string option"
  p_status :: "string option"

fun truthy :: "string option \<Rightarrow> bool" where
  "truthy None = False"
| "truthy (Some v) = (v \<noteq> [])"

record updates =
  up_role :: "string option"
  up_company :: "string option"
  up_status :: "string option"
  up_updated_at :: nat

definition make_updates :: "nat \<Rightarrow> payload \<Rightarrow> updates" where
  "make_updates now p =
     \<lparr>up_role = (if truthy (p_role p) then p_role p else None),
      up_company = (if truthy (p_company p) then p_company p else None),
      up_status = (if truthy (p_status p) then p_status p else None),
      up_updated_at = now\<rparr>"

definition set_column :: "string option \<Rightarrow> string option \<Rightarrow> string option" where
  "set_column new old = (case new of None \<Rightarrow> old | Some v \<Rightarrow> Some v)"

definition apply_updates :: "updates \<Rightarrow> job \<Rightarrow> job" where
  "apply_updates u j =
     j\<lparr>j_role := set_column (up_role u) (j_role j),
       j_company := set_column (up_company u) (j_company j),
       j_status := set_column (up_status u) (j_status j),
       j_updated_at := Some (up_updated_at u)\<rparr>"

definition set_cell :: "string \<Rightarrow> string option \<Rightarrow> cells" where
  "set_cell c new = (case new of None \<Rightarrow> [] | Some v \<Rightarrow> [(c, Some v)])"

definition update_cells :: "updates \<Rightarrow> cells" where
  "update_cells u =
     set_cell ''role'' (up_role u) @ set_cell ''company'' (up_company u)
     @ set_cell ''status'' (up_status u)"

definition updateJob :: "db \<Rightarrow> nat \<Rightarrow> nat \<Rightarrow> nat \<Rightarrow> payload \<Rightarrow> db_error + (db \<times> job option)" where
  "updateJob d now jobId userId p =
     (let updates = make_updates now p in
      case jobs d of
        None \<Rightarrow> Inl (NoSuchTable ''jobs'')
      | Some t \<Rightarrow>
          (let returning = map (apply_updates updates) (filter (owned jobId userId) (t_rows t));
               others = map job_cells (filter (\<lambda>j. \<not> owned jobId userId j) (t_rows t))
           in case concat (map (\<lambda>j. violations (t_schema t) others (update_cells updates))
                            returning) of
                e # _ \<Rightarrow> Inl e
              | [] \<Rightarrow>
                  Inr (d\<lparr>jobs := Some (t\<lparr>t_rows :=
                           map (\<lambda>j. if owned jobId userId j then apply_updates updates j else j)
                             (t_rows t)\<rparr>)\<rparr>,
                       case returning of [] \<Rightarrow> None | updatedJob # _ \<Rightarrow> Some updatedJob)))"

text \<open>
  \<^verbatim>\<open>
  async deleteJob({ jobId, userId }) {
    const count = await this.db("jobs").where({ id: jobId, created_by: userId }).del();
    return count; // Number of rows deleted (0 or 1)
  }
  \<close>
\<close>

definition deleteJob :: "db \<Rightarrow> nat \<Rightarrow> nat \<Rightarrow> db_error + (db \<times> nat)" where
  "deleteJob d jobId userId =
     (case jobs d of
        None \<Rightarrow> Inl (NoSuchTable ''jobs'')
      | Some t \<Rightarrow>
          Inr (d\<lparr>jobs := Some (t\<lparr>t_rows := filter (\<lambda>j. \<not> owned jobId userId j) (t_rows t)\<rparr>)\<rparr>,
               length (filter (owned jobId userId) (t_rows t))))"

text \<open>
  Calling \<open>deleteJob\<close> with the same arguments \<open>k\<close> times in a row, each call on the
  database the call before left; the counts the calls return, in order.
\<close>

fun deleteJob_again :: "nat \<Rightarrow> db \<Rightarrow> nat \<Rightarrow> nat \<Rightarrow> db_error + (db \<times> nat list)" where
  "deleteJob_again 0 d jobId userId = Inr (d, [])"
| "deleteJob_again (Suc k) d jobId userId =
     (case deleteJob d jobId userId of
        Inl e \<Rightarrow> Inl e
      | Inr (d', cnt) \<Rightarrow>
          (case deleteJob_again k d' jobId userId of
             Inl e \<Rightarrow> Inl e
           | Inr (d'', counts) \<Rightarrow> Inr (d'', cnt # counts)))"

section \<open>Notions the statements use\<close>

subsection \<open>What the declared \<open>jobs\<close> schema accepts\<close>

text \<open>
  The three text columns of \<open>jobs\<close> as the declared schema constrains them: \<open>role\<close> and
  \<open>company\<close> not null and at most 100 and 50 characters (as SQL \<open>length\<close> counts them),
  \<open>status\<close> not null and one of the three enum values.  \<open>violations_jobs\<close> below proves
  that the engine's checks of a whole row on \<open>jobs_schema\<close> come to exactly this, and
  \<open>violations_update\<close> that its checks of an update come to \<open>payload_fits\<close>: each truthy
  payload value fits its column.
\<close>

definition accepted_text :: "nat \<Rightarrow> string option \<Rightarrow> bool" where
  "accepted_text n v = (case v of None \<Rightarrow> False | Some s \<Rightarrow> sql_length s \<le> n)"

definition accepted_status :: "string option \<Rightarrow> bool" where
  "accepted_status v =
     (case v of None \<Rightarrow> False | Some s \<Rightarrow> s \<in> set [''pending'', ''interview'', ''decline''])"

definition job_accepted :: "job \<Rightarrow> bool" where
  "job_accepted j =
     (accepted_text 100 (j_role j) \<and> accepted_text 50 (j_company j) \<and> accepted_status (j_status j))"

text \<open>Some row of \<open>users\<close> has the email \<open>e\<close>.\<close>

definition email_taken :: "user list \<Rightarrow> string \<Rightarrow> bool" where
  "email_taken rows e = list_ex (\<lambda>u. u_email u = Some e) rows"

definition payload_fits :: "payload \<Rightarrow> bool" where
  "payload_fits p =
     ((truthy (p_role p) \<longrightarrow> accepted_text 100 (p_role p))
      \<and> (truthy (p_company p) \<longrightarrow> accepted_text 50 (p_company p))
      \<and> (truthy (p_status p) \<longrightarrow> accepted_status (p_status p)))"

text \<open>
  Two invariants of the stored data: primary keys are distinct within each table, and
  every job's \<open>created_by\<close> is the key of an account.
\<close>

definition keys_unique :: "db \<Rightarrow> bool" where
  "keys_unique d =
     ((case users d of None \<Rightarrow> True | Some ut \<Rightarrow> distinct (map u_id (t_rows ut)))
      \<and> (case jobs d of None \<Rightarrow> True | Some jt \<Rightarrow> distinct (map j_id (t_rows jt))))"

definition owners_exist :: "db \<Rightarrow> bool" where
  "owners_exist d =
     (case jobs d of
        None \<Rightarrow> True
      | Some jt \<Rightarrow>
          (case users d of
             None \<Rightarrow> t_rows jt = []
           | Some ut \<Rightarrow> list_all (\<lambda>j. j_created_by j \<in> set (map u_id (t_rows ut))) (t_rows jt)))"

section \<open>Example states\<close>

text \<open>
  Two accounts with one job each, in tables that \<open>initTable\<close> created, on a connection
  with \<open>useNullAsDefault\<close> and without foreign-key enforcement, and the same on a
  connection without \<open>useNullAsDefault\<close>; a database whose \<open>users\<close> table predates the
  present schema; and a database with no tables yet.
\<close>

definition ex_alice :: user where
  "ex_alice = \<lparr>u_id = 1, u_name = Some ''Alice'', u_email = Some ''a@b.com'',
                u_password = Some ''$2a$10$abcdefghijklmnopqrstuv''\<rparr>"

definition ex_bob :: user where
  "ex_bob = \<lparr>u_id = 2, u_name = Some ''Bob'', u_email = Some ''bob@c.org'',
              u_password = Some ''$2a$10$zyxwvutsrqponmlkjihgfe''\<rparr>"

definition ex_job1 :: job where
  "ex_job1 = \<lparr>j_id = 1, j_role = Some ''Engineer'', j_company = Some ''Acme'',
               j_status = Some ''pending'', j_created_by = 1,
               j_created_at = Some 100, j_updated_at = Some 100\<rparr>"

definition ex_job2 :: job where
  "ex_job2 = \<lparr>j_id = 2, j_role = Some ''Analyst'', j_company = Some ''Initech'',
               j_status = Some ''interview'', j_created_by = 2,
               j_created_at = Some 200, j_updated_at = Some 250\<rparr>"

definition ex_users :: "user table" where
  "ex_users = \<lparr>t_schema = users_schema, t_rows = [ex_alice, ex_bob], t_seq = 2\<rparr>"

definition ex_jobs :: "job table" where
  "ex_jobs = \<lparr>t_schema = jobs_schema, t_rows = [ex_job1, ex_job2], t_seq = 2\<rparr>"

definition ex_db :: db where
  "ex_db = \<lparr>users = Some ex_users, jobs = Some ex_jobs, foreign_keys = False,
             useNullAsDefault = True\<rparr>"

definition ex_strict :: db where
  "ex_strict = \<lparr>users = Some ex_users, jobs = Some ex_jobs, foreign_keys = False,
                 useNullAsDefault = False\<rparr>"

definition ex_legacy :: db where
  "ex_legacy = \<lparr>users = Some \<lparr>t_schema = \<lparr>sch_columns = [], sch_checks = []\<rparr>,
                               t_rows = [ex_alice], t_seq = 1\<rparr>,
                 jobs = None, foreign_keys = False, useNullAsDefault = False\<rparr>"

definition ex_empty :: db where
  "ex_empty = \<lparr>users = None, jobs = None, foreign_keys = False, useNullAsDefault = True\<rparr>"

definition ex_blank :: payload where
  "ex_blank = \<lparr>p_role = None, p_company = None, p_status = Some []\<rparr>"

definition ex_payload :: payload where
  "ex_payload = \<lparr>p_role = Some ''Lead'', p_company = None, p_status = Some []\<rparr>"

definition ex_wrong :: payload where
  "ex_wrong = \<lparr>p_role = None, p_company = None, p_status = Some ''open''\<rparr>"

text \<open>
  A stand-in for the password hash, and three registrations with one email, the last
  with a name of 51 characters.
\<close>

definition ex_hash :: "string \<Rightarrow> string \<Rightarrow> string" where
  "ex_hash password salt = salt @ password"

definition ex_carol :: user_args where
  "ex_carol = \<lparr>a_name = ''Carol'', a_email = ''carol@d.io'', a_password = ''secret1''\<rparr>"

definition ex_carla :: user_args where
  "ex_carla = \<lparr>a_name = ''Carla'', a_email = ''carol@d.io'', a_password = ''hunter22''\<rparr>"

definition ex_long :: user_args where
  "ex_long = \<lparr>a_name = replicate 51 CHR ''x'', a_email = ''carol@d.io'',
               a_password = ''hunter22''\<rparr>"

text \<open>The first registration as \<open>createUser\<close> returns and stores it with the salt \<open>salt1\<close>.\<close>

definition ex_carol_row :: user where
  "ex_carol_row = \<lparr>u_id = 3, u_name = Some ''Carol'', u_email = Some ''carol@d.io'',
                    u_password = Some ''salt1secret1''\<rparr>"

definition ex_carol_created :: created_user where
  "ex_carol_created = \<lparr>cu_id = \<lparr>id_of = 3\<rparr>, cu_name = ''Carol'', cu_email = ''carol@d.io'',
                        cu_hashedPassword = ''salt1secret1''\<rparr>"

definition ex_db_carol :: db where
  "ex_db_carol =
     ex_db\<lparr>users := Some (ex_users\<lparr>t_rows := [ex_alice, ex_bob, ex_carol_row], t_seq := 3\<rparr>)\<rparr>"

text \<open>
  A call of \<open>createJob\<close> that leaves \<open>status\<close> out, and one for an owner that is no
  account, with the row it stores and the database it leaves.
\<close>

definition ex_unset :: job_args where
  "ex_unset = \<lparr>a_role = Some ''Engineer'', a_company = Some ''Acme'', a_status = None,
                a_createdBy = 1\<rparr>"

definition ex_stray :: job_args where
  "ex_stray = \<lparr>a_role = Some ''Engineer'', a_company = Some ''Acme'',
                a_status = Some ''pending'', a_createdBy = 99\<rparr>"

definition ex_job3 :: job where
  "ex_job3 = \<lparr>j_id = 3, j_role = Some ''Engineer'', j_company = Some ''Acme'',
               j_status = Some ''pending'', j_created_by = 99,
               j_created_at = Some 500, j_updated_at = Some 500\<rparr>"

definition ex_db_stray :: db where
  "ex_db_stray = ex_db\<lparr>jobs := Some (ex_jobs\<lparr>t_rows := [ex_job1, ex_job2, ex_job3], t_seq := 3\<rparr>)\<rparr>"

text \<open>A stand-in for the token's signature, an environment that sets the secret, and the
  claims of the token issued to the first account at time 1000.\<close>

definition ex_mac :: "string \<Rightarrow> (string \<times> json) list \<Rightarrow> string \<times> (string \<times> json) list" where
  "ex_mac key claims = (key, claims)"

definition ex_env :: "string \<rightharpoonup> string" where
  "ex_env = [''JWT_SECRET'' \<mapsto> ''s3cret'']"

definition ex_claims :: "(string \<times> json) list" where
  "ex_claims = [(''userId'', JNum 1), (''name'', JStr ''Alice''),
                (''iat'', JNum 1000), (''exp'', JNum 2593000)]"

section \<open>Facts about lists and the two schemas\<close>

lemma filter_none: "\<not> list_ex P xs \<Longrightarrow> filter P xs = []"
  by (induction xs) auto

lemma filter_not_none: "\<not> list_ex P xs \<Longrightarrow> filter (\<lambda>x. \<not> P x) xs = xs"
  by (induction xs) auto

lemma map_if_none: "\<not> list_ex P xs \<Longrightarrow> map (\<lambda>x. if P x then f x else x) xs = xs"
  by (induction xs) auto

subsection \<open>The declared \<open>jobs\<close> schema\<close>

lemma attrs_jobs:
  "attrs_of jobs_schema ''role'' = [NotNullable, CheckLength LessEq 100]"
  "attrs_of jobs_schema ''company'' = [NotNullable, CheckLength LessEq 50]"
  "attrs_of jobs_schema ''status'' = [NotNullable, DefaultTo ''pending'']"
  "attrs_of jobs_schema ''created_by'' = [NotNullable, References ''id'' ''users'', OnDeleteCascade]"
  "attrs_of jobs_schema ''created_at'' = [DefaultNow]"
  "attrs_of jobs_schema ''updated_at'' = [DefaultNow]"
  by (simp_all add: attrs_of_def jobs_schema_def)

lemma kinds_jobs:
  "kinds_of jobs_schema ''role'' = [StringT]"
  "kinds_of jobs_schema ''company'' = [StringT]"
  "kinds_of jobs_schema ''status'' = [EnumT [''pending'', ''interview'', ''decline'']]"
  by (simp_all add: kinds_of_def jobs_schema_def)

lemma checks_jobs: "sch_checks jobs_schema = []"
  by (simp add: jobs_schema_def)

lemma null_refused_jobs:
  "null_refused jobs_schema (''role'', v) = (v = None)"
  "null_refused jobs_schema (''company'', v) = (v = None)"
  "null_refused jobs_schema (''status'', v) = (v = None)"
  by (simp_all add: attrs_jobs)

lemma cell_ok_jobs:
  "cell_ok jobs_schema (''role'', v) = (v = None \<or> accepted_text 100 v)"
  "cell_ok jobs_schema (''company'', v) = (v = None \<or> accepted_text 50 v)"
  "cell_ok jobs_schema (''status'', v) = (v = None \<or> accepted_status v)"
  by (cases v; simp add: attrs_jobs kinds_jobs accepted_text_def accepted_status_def)+

lemma duplicate_jobs:
  "duplicate jobs_schema others (''role'', v) = False"
  "duplicate jobs_schema others (''company'', v) = False"
  "duplicate jobs_schema others (''status'', v) = False"
  by (cases v; simp add: attrs_jobs)+

lemma accepted_not_None:
  "accepted_text n v \<Longrightarrow> v \<noteq> None" "accepted_status v \<Longrightarrow> v \<noteq> None"
  by (cases v; simp add: accepted_text_def accepted_status_def)+

lemma violations_jobs:
  "(violations jobs_schema others (job_cells j) = []) = job_accepted j"
proof -
  have a: "filter (null_refused jobs_schema) (job_cells j) = []
      \<longleftrightarrow> j_role j \<noteq> None \<and> j_company j \<noteq> None \<and> j_status j \<noteq> None"
    by (simp add: job_cells_def null_refused_jobs del: null_refused.simps)
  have b: "filter (\<lambda>cell. \<not> cell_ok jobs_schema cell) (job_cells j) = []
      \<longleftrightarrow> (j_role j = None \<or> accepted_text 100 (j_role j))
        \<and> (j_company j = None \<or> accepted_text 50 (j_company j))
        \<and> (j_status j = None \<or> accepted_status (j_status j))"
    by (simp add: job_cells_def cell_ok_jobs del: cell_ok.simps)
  have c: "filter (duplicate jobs_schema others) (job_cells j) = []"
    by (simp add: job_cells_def duplicate_jobs del: duplicate.simps)
  show ?thesis
    unfolding violations_def job_accepted_def
    using a b c accepted_not_None by (auto simp: checks_jobs)
qed

section \<open>What \<open>updateJob\<close> and \<open>deleteJob\<close> do to the table\<close>

lemma updateJob_no_match:
  assumes "jobs d = Some t" and "\<not> list_ex (owned jobId userId) (t_rows t)"
  shows "updateJob d now jobId userId p = Inr (d, None)"
  using assms by (simp add: updateJob_def filter_none map_if_none)

lemma updateJob_rows:
  assumes "jobs d = Some t" and "updateJob d now jobId userId p = Inr (d', res)"
  shows "d' = d\<lparr>jobs := Some (t\<lparr>t_rows :=
                 map (\<lambda>j. if owned jobId userId j then apply_updates (make_updates now p) j else j)
                   (t_rows t)\<rparr>)\<rparr>"
    and "res = (case filter (owned jobId userId) (t_rows t) of
                  [] \<Rightarrow> None
                | j # _ \<Rightarrow> Some (apply_updates (make_updates now p) j))"
  using assms by (auto simp: updateJob_def Let_def split: list.splits)

lemma deleteJob_rows:
  assumes "jobs d = Some t"
  shows "deleteJob d jobId userId =
           Inr (d\<lparr>jobs := Some (t\<lparr>t_rows := filter (\<lambda>j. \<not> owned jobId userId j) (t_rows t)\<rparr>)\<rparr>,
                length (filter (owned jobId userId) (t_rows t)))"
  using assms by (simp add: deleteJob_def)

lemma deleteJob_no_match:
  assumes "jobs d = Some t" and "\<not> list_ex (owned jobId userId) (t_rows t)"
  shows "deleteJob d jobId userId = Inr (d, 0)"
  using assms by (simp add: deleteJob_def filter_none filter_not_none)

lemma deleteJob_again_no_match:
  assumes "jobs d = Some t" and "\<not> list_ex (owned jobId userId) (t_rows t)"
  shows "deleteJob_again k d jobId userId = Inr (d, replicate k 0)"
  by (induction k) (simp_all add: deleteJob_no_match[OF assms])

text \<open>With distinct keys, at most one row has a given key, whoever owns it.\<close>

lemma owned_at_most_once:
  assumes "distinct (map j_id rows)"
  shows "length (filter (owned jobId userId) rows) \<le> 1"
  using assms
proof (induction rows)
  case Nil
  then show ?case by simp
next
  case (Cons r rows)
  show ?case
  proof (cases "owned jobId userId r")
    case True
    then have "jobId \<notin> j_id ` set rows"
      using Cons.prems by (auto simp: owned_def)
    then have "filter (owned jobId userId) rows = []"
      by (auto simp: filter_empty_conv owned_def)
    then show ?thesis using True by simp
  next
    case False
    then show ?thesis using Cons by simp
  qed
qed

lemma owned_count:
  assumes "distinct (map j_id rows)"
  shows "length (filter (owned jobId userId) rows)
           = (if list_ex (owned jobId userId) rows then 1 else 0)"
proof (cases "list_ex (owned jobId userId) rows")
  case True
  then have "filter (owned jobId userId) rows \<noteq> []"
    by (auto simp: filter_empty_conv list_ex_iff)
  with owned_at_most_once[OF assms, of jobId userId] True show ?thesis
    by (cases "filter (owned jobId userId) rows") auto
next
  case False
  then show ?thesis by (simp add: filter_none)
qed

text \<open>With distinct keys, the row the caller owns under a key is the only match.\<close>

lemma filter_owned_unique:
  assumes "distinct (map j_id rows)" and "r \<in> set rows" and "owned jobId userId r"
  shows "filter (owned jobId userId) rows = [r]"
  using assms
proof (induction rows)
  case Nil
  then show ?case by simp
next
  case (Cons a rows)
  show ?case
  proof (cases "a = r")
    case True
    then have "jobId \<notin> j_id ` set rows"
      using Cons.prems by (auto simp: owned_def)
    then have "filter (owned jobId userId) rows = []"
      by (auto simp: filter_empty_conv owned_def)
    then show ?thesis using True Cons.prems by simp
  next
    case False
    then have "r \<in> set rows" using Cons.prems by simp
    then have "j_id a \<noteq> j_id r" using Cons.prems by auto
    then have "\<not> owned jobId userId a" using Cons.prems(3) by (auto simp: owned_def)
    then show ?thesis using Cons \<open>r \<in> set rows\<close> by simp
  qed
qed

lemma owned_only:
  assumes "distinct (map j_id rows)" and "r \<in> set rows" and "owned jobId userId r"
    and "j \<in> set rows"
  shows "owned jobId userId j \<longleftrightarrow> j = r"
proof
  assume "owned jobId userId j"
  then have "j \<in> set (filter (owned jobId userId) rows)" using assms(4) by simp
  then show "j = r" using filter_owned_unique[OF assms(1-3)] by simp
next
  assume "j = r" then show "owned jobId userId j" using assms(3) by simp
qed

lemma apply_make_updates:
  "apply_updates (make_updates now p) r =
     r\<lparr>j_role := (if truthy (p_role p) then p_role p else j_role r),
       j_company := (if truthy (p_company p) then p_company p else j_company r),
       j_status := (if truthy (p_status p) then p_status p else j_status r),
       j_updated_at := Some now\<rparr>"
proof -
  have "set_column (if truthy v then v else None) old = (if truthy v then v else old)" for v old
    by (cases v) (simp_all add: set_column_def)
  then show ?thesis
    by (simp add: apply_updates_def make_updates_def)
qed

text \<open>What the engine checks of an update on the declared schema.\<close>

lemma violations_set_cell:
  "(violations jobs_schema others (set_cell c w @ cs) = []) =
     ((w \<noteq> None \<longrightarrow> \<not> null_refused jobs_schema (c, w) \<and> cell_ok jobs_schema (c, w)
                      \<and> \<not> duplicate jobs_schema others (c, w))
      \<and> violations jobs_schema others cs = [])"
  by (cases w) (auto simp: violations_def set_cell_def checks_jobs
      simp del: null_refused.simps cell_ok.simps duplicate.simps)

lemma violations_update:
  "(violations jobs_schema others (update_cells (make_updates now p)) = []) = payload_fits p"
proof -
  have nil: "violations jobs_schema others [] = []"
    by (simp add: violations_def checks_jobs)
  have role: "(violations jobs_schema others
        (set_cell ''role'' (if truthy v then v else None) @ cs) = [])
      = ((truthy v \<longrightarrow> accepted_text 100 v) \<and> violations jobs_schema others cs = [])" for v cs
    unfolding violations_set_cell
    by (cases v) (simp_all add: null_refused_jobs cell_ok_jobs duplicate_jobs
        del: null_refused.simps cell_ok.simps duplicate.simps)
  have company: "(violations jobs_schema others
        (set_cell ''company'' (if truthy v then v else None) @ cs) = [])
      = ((truthy v \<longrightarrow> accepted_text 50 v) \<and> violations jobs_schema others cs = [])" for v cs
    unfolding violations_set_cell
    by (cases v) (simp_all add: null_refused_jobs cell_ok_jobs duplicate_jobs
        del: null_refused.simps cell_ok.simps duplicate.simps)
  have status: "(violations jobs_schema others
        (set_cell ''status'' (if truthy v then v else None)) = [])
      = (truthy v \<longrightarrow> accepted_status v)" for v
    using violations_set_cell[of others "''status''" "if truthy v then v else None" "[]"]
    by (cases v) (simp_all add: nil null_refused_jobs cell_ok_jobs duplicate_jobs
        del: null_refused.simps cell_ok.simps duplicate.simps)
  have "update_cells (make_updates now p) =
      set_cell ''role'' (if truthy (p_role p) then p_role p else None)
      @ set_cell ''company'' (if truthy (p_company p) then p_company p else None)
      @ set_cell ''status'' (if truthy (p_status p) then p_status p else None)"
    by (simp add: update_cells_def make_updates_def)
  then show ?thesis
    by (simp only: role company status payload_fits_def)
qed

lemma accepted_fits:
  assumes "job_accepted
      (r\<lparr>j_role := (if truthy (p_role p) then p_role p else j_role r),
         j_company := (if truthy (p_company p) then p_company p else j_company r),
         j_status := (if truthy (p_status p) then p_status p else j_status r),
         j_updated_at := Some now\<rparr>)"
  shows "payload_fits p"
  using assms by (auto simp: job_accepted_def payload_fits_def)

lemma updateJob_owned:
  assumes "jobs d = Some t" and "distinct (map j_id (t_rows t))"
    and "r \<in> set (t_rows t)" and "owned jobId userId r"
  shows "updateJob d now jobId userId p =
     (case violations (t_schema t) (map job_cells (filter (\<lambda>j. \<not> owned jobId userId j) (t_rows t)))
             (update_cells (make_updates now p)) of
        e # _ \<Rightarrow> Inl e
      | [] \<Rightarrow> Inr (d\<lparr>jobs := Some (t\<lparr>t_rows :=
                       map (\<lambda>j. if j = r then apply_updates (make_updates now p) r else j) (t_rows t)\<rparr>)\<rparr>,
                   Some (apply_updates (make_updates now p) r)))"
proof -
  have f: "filter (owned jobId userId) (t_rows t) = [r]"
    by (rule filter_owned_unique[OF assms(2-4)])
  have m: "map (\<lambda>j. if owned jobId userId j then apply_updates (make_updates now p) j else j) (t_rows t)
      = map (\<lambda>j. if j = r then apply_updates (make_updates now p) r else j) (t_rows t)"
    using owned_only[OF assms(2-4)] by (intro map_cong) auto
  show ?thesis
    using assms(1) by (simp add: updateJob_def Let_def f m split: list.splits)
qed

section \<open>What \<open>getAllJobs\<close> returns\<close>

lemma truncate_select [simp]: "job.truncate (select_listed (j, u)) = j"
  by (simp add: select_listed_def job.truncate_def job.extend_def)

lemma creator_select [simp]: "creator_name (select_listed (j, u)) = u_name u"
  by (simp add: select_listed_def job.extend_def listed_job.fields_def)

lemma created_by_select [simp]: "j_created_by (select_listed (j, u)) = j_created_by j"
  by (simp add: select_listed_def job.extend_def)

lemma join_users_set:
  "set (join_users js us) = {(j, u). j \<in> set js \<and> u \<in> set us \<and> j_created_by j = u_id u}"
  by (auto simp: join_users_def)

lemma filter_unique_id:
  assumes "distinct (map u_id us)" and "u \<in> set us"
  shows "filter (\<lambda>v. u_id u = u_id v) us = [u]"
  using assms
proof (induction us)
  case Nil
  then show ?case by simp
next
  case (Cons a us)
  show ?case
  proof (cases "a = u")
    case True
    then have "u_id u \<notin> u_id ` set us" using Cons.prems by auto
    then have "filter (\<lambda>v. u_id u = u_id v) us = []"
      by (auto simp: filter_empty_conv)
    then show ?thesis using True by simp
  next
    case False
    then have "u \<in> set us" using Cons.prems by simp
    moreover have "u_id a \<noteq> u_id u" using Cons.prems \<open>u \<in> set us\<close> by auto
    ultimately show ?thesis using Cons by auto
  qed
qed

text \<open>
  The join keeps a job of owner \<open>k\<close> once when \<open>k\<close> is an account's key, and drops it
  otherwise.
\<close>

lemma join_users_owner:
  assumes "distinct (map u_id us)"
  shows "map fst (filter (\<lambda>ju. j_created_by (fst ju) = k) (join_users js us))
     = (if k \<in> u_id ` set us then filter (\<lambda>j. j_created_by j = k) js else [])"
proof (induction js)
  case Nil
  then show ?case by (simp add: join_users_def)
next
  case (Cons j js)
  have step: "map fst (filter (\<lambda>ju. j_created_by (fst ju) = k)
        (map (Pair j) (filter (\<lambda>u. j_created_by j = u_id u) us)))
      = (if j_created_by j = k \<and> k \<in> u_id ` set us then [j] else [])"
  proof (cases "j_created_by j = k")
    case False
    then show ?thesis by (simp add: filter_map comp_def)
  next
    case True
    show ?thesis
    proof (cases "k \<in> u_id ` set us")
      case False
      then have "filter (\<lambda>u. j_created_by j = u_id u) us = []"
        using True by (auto simp: filter_empty_conv)
      then show ?thesis using False by simp
    next
      case k: True
      then obtain u where u: "u \<in> set us" "u_id u = k" by auto
      have "filter (\<lambda>v. j_created_by j = u_id v) us = [u]"
        using filter_unique_id[OF assms u(1)] u(2) True by simp
      then show ?thesis using True k by simp
    qed
  qed
  have split: "join_users (j # js) us
      = map (Pair j) (filter (\<lambda>u. j_created_by j = u_id u) us) @ join_users js us"
    by (simp add: join_users_def)
  show ?case
    unfolding split filter_append map_append step Cons.IH by simp
qed

lemma getAllJobs_rows:
  assumes "jobs d = Some jt" and "users d = Some ut"
    and "distinct (map u_id (t_rows ut))"
  shows "\<exists>l. getAllJobs d userId = Inr l
          \<and> map job.truncate l
              = (if userId \<in> u_id ` set (t_rows ut)
                 then filter (\<lambda>j. j_created_by j = userId) (t_rows jt) else [])"
proof -
  let ?joined = "join_users (t_rows jt) (t_rows ut)"
  let ?l = "map select_listed (filter (\<lambda>ju. j_created_by (fst ju) = userId) ?joined)"
  have "getAllJobs d userId = Inr ?l"
    using assms(1,2) by (simp add: getAllJobs_def)
  moreover have "map job.truncate ?l = map fst (filter (\<lambda>ju. j_created_by (fst ju) = userId) ?joined)"
    by (auto simp: comp_def)
  ultimately show ?thesis
    unfolding join_users_owner[OF assms(3)] by blast
qed

section \<open>The declared \<open>users\<close> schema and \<open>createUser\<close>\<close>

text \<open>Of the two length checks written for \<open>name\<close>, the table has the second.\<close>

lemma attrs_users:
  "attrs_of users_schema ''name'' = [NotNullable, CheckLength LessEq 50]"
  "attrs_of users_schema ''email'' = [NotNullable, Unique]"
  "attrs_of users_schema ''password'' = [NotNullable, CheckLength GreaterEq 6]"
  by (simp_all add: attrs_of_def users_schema_def)

lemma kinds_users:
  "kinds_of users_schema ''name'' = [StringT]"
  "kinds_of users_schema ''email'' = [StringT]"
  "kinds_of users_schema ''password'' = [StringT]"
  by (simp_all add: kinds_of_def users_schema_def)

lemma checks_users: "sch_checks users_schema = [(''email'', ''%@%.%'')]"
  by (simp add: users_schema_def)

lemma email_taken_cells:
  "list_ex (\<lambda>other. map_of other ''email'' = Some (Some e)) (map user_cells rows) = email_taken rows e"
  by (induction rows) (simp_all add: email_taken_def user_cells_def)

lemma violations_users:
  "violations users_schema (map user_cells rows)
     (user_cells \<lparr>u_id = i, u_name = Some n, u_email = Some e, u_password = Some h\<rparr>)
   = (if sql_length n \<le> 50 then [] else [CheckViolation ''name''])
     @ (if 6 \<le> sql_length h then [] else [CheckViolation ''password''])
     @ (if like ''%@%.%'' e then [] else [CheckViolation ''email''])
     @ (if email_taken rows e then [UniqueViolation ''email''] else [])"
  by (simp add: violations_def user_cells_def attrs_users kinds_users checks_users
        email_taken_cells del: like.simps)

lemma createUser_Inr:
  assumes "users d = Some t" and "t_schema t = users_schema"
    and "createUser hash salt d a = Inr (d', res)"
  shows "res = \<lparr>cu_id = \<lparr>id_of = next_id (map u_id (t_rows t)) (t_seq t)\<rparr>, cu_name = a_name a,
                 cu_email = a_email a, cu_hashedPassword = hash (a_password a) salt\<rparr>"
    and "d' = d\<lparr>users := Some (t\<lparr>t_rows := t_rows t @
                  [\<lparr>u_id = next_id (map u_id (t_rows t)) (t_seq t), u_name = Some (a_name a),
                    u_email = Some (a_email a), u_password = Some (hash (a_password a) salt)\<rparr>],
                t_seq := next_id (map u_id (t_rows t)) (t_seq t)\<rparr>)\<rparr>"
    and "like ''%@%.%'' (a_email a)" and "\<not> email_taken (t_rows t) (a_email a)"
  using assms
  by (auto simp: createUser_def insert_user_def Let_def violations_users
        simp del: like.simps split: list.splits if_splits)

text \<open>A registration that fits the columns and brings a new email is accepted.\<close>

lemma createUser_succeeds:
  assumes "users d = Some t" and "t_schema t = users_schema"
    and "sql_length (a_name a) \<le> 50"
    and "like ''%@%.%'' (a_email a)" and "6 \<le> sql_length (hash (a_password a) salt)"
    and "\<not> email_taken (t_rows t) (a_email a)"
  shows "\<exists>d' res. createUser hash salt d a = Inr (d', res)"
  using assms
  by (simp add: createUser_def insert_user_def Let_def violations_users del: like.simps)

lemma email_taken_append:
  "email_taken (rows @ [u]) e = (email_taken rows e \<or> u_email u = Some e)"
  by (simp add: email_taken_def)

lemma find_email_new:
  assumes "\<not> email_taken rows e" and "u_email u = Some e"
  shows "find (\<lambda>v. u_email v = Some e) (rows @ [u]) = Some u"
  using assms by (induction rows) (simp_all add: email_taken_def)

lemma like_email_carol: "like ''%@%.%'' ''carol@d.io''"
  by simp

lemma sql_length_plain:
  assumes "CHR 0x00 \<notin> set v"
  shows "sql_length v = length v"
proof -
  have "takeWhile (\<lambda>c. c \<noteq> CHR 0x00) v = v"
    using assms by (auto simp: takeWhile_eq_all_conv)
  then show ?thesis
    unfolding sql_length_def by (rule arg_cong)
qed

section \<open>What \<open>createJob\<close> inserts\<close>

lemma fold_max_ge: "s \<le> fold max ids (s::nat)"
  by (induction ids arbitrary: s) (auto intro: order_trans[OF max.cobounded2])

lemma fold_max_mem: "x \<in> set ids \<Longrightarrow> x \<le> fold max ids (s::nat)"
proof (induction ids arbitrary: s)
  case Nil
  then show ?case by simp
next
  case (Cons a ids)
  show ?case
  proof (cases "x = a")
    case True
    have "a \<le> max a s" by simp
    also have "\<dots> \<le> fold max ids (max a s)" by (rule fold_max_ge)
    finally show ?thesis using True by simp
  next
    case False
    then show ?thesis using Cons by simp
  qed
qed

lemma next_id_fresh: "next_id ids seq \<notin> set ids"
proof
  assume "next_id ids seq \<in> set ids"
  then have "next_id ids seq \<le> fold max ids seq" by (rule fold_max_mem)
  then show False by (simp add: next_id_def)
qed

lemma bind_value_Inr:
  assumes "bind_value u v = Inr w"
  shows "(v \<noteq> None \<and> w = v) \<or> (v = None \<and> u \<and> w = None)"
  using assms by (cases v; cases u) auto

lemma bind_value_given: "v \<noteq> None \<Longrightarrow> bind_value u v = Inr v"
  by (cases v) simp_all

lemma default_text_jobs:
  "default_text (attrs_of jobs_schema ''role'') = None"
  "default_text (attrs_of jobs_schema ''company'') = None"
  "default_text (attrs_of jobs_schema ''status'') = Some ''pending''"
  by (simp_all add: attrs_jobs)

lemma default_now_jobs:
  "default_now (attrs_of jobs_schema ''created_at'') now = Some now"
  "default_now (attrs_of jobs_schema ''updated_at'') now = Some now"
  by (simp_all add: attrs_jobs default_now_def)

lemma violations_jobs_accepted:
  "job_accepted j \<Longrightarrow> violations jobs_schema others (job_cells j) = []"
  by (simp add: violations_jobs)

text \<open>
  The insert on the declared schema, once its three values are bound: the engine's part.
\<close>

lemma insert_job_bound:
  assumes "jobs d = Some t" and "t_schema t = jobs_schema"
    and "bind_value (useNullAsDefault d) role = Inr vr"
    and "bind_value (useNullAsDefault d) company = Inr vc"
    and "bind_value (useNullAsDefault d) status = Inr vs"
  shows "insert_job d now role company status cb =
     (if fk_declared d jobs_schema \<and> users d = None then Inl (NoSuchTable ''users'')
      else case violations jobs_schema (map job_cells (t_rows t))
             (job_cells \<lparr>j_id = next_id (map j_id (t_rows t)) (t_seq t), j_role = vr,
                j_company = vc, j_status = vs, j_created_by = cb,
                j_created_at = Some now, j_updated_at = Some now\<rparr>) of
             e # _ \<Rightarrow> Inl e
           | [] \<Rightarrow>
               if fk_refused d jobs_schema cb then Inl (ForeignKeyViolation ''created_by'')
               else Inr (d\<lparr>jobs := Some (t\<lparr>t_rows := t_rows t @
                           [\<lparr>j_id = next_id (map j_id (t_rows t)) (t_seq t), j_role = vr,
                             j_company = vc, j_status = vs, j_created_by = cb,
                             j_created_at = Some now, j_updated_at = Some now\<rparr>],
                         t_seq := next_id (map j_id (t_rows t)) (t_seq t)\<rparr>)\<rparr>,
                         next_id (map j_id (t_rows t)) (t_seq t)))"
  using assms
  by (simp add: insert_job_def Let_def default_now_jobs cong: list.case_cong if_cong)

lemma insert_job_Inr:
  assumes "jobs d = Some t" and "t_schema t = jobs_schema"
    and ins: "insert_job d now role company status cb = Inr (d', k)"
  shows "k = next_id (map j_id (t_rows t)) (t_seq t)"
    and "d' = d\<lparr>jobs := Some (t\<lparr>t_rows := t_rows t @
                 [\<lparr>j_id = k, j_role = role, j_company = company,
                   j_status = status, j_created_by = cb,
                   j_created_at = Some now, j_updated_at = Some now\<rparr>],
               t_seq := k\<rparr>)\<rparr>"
    and "accepted_text 100 role" and "accepted_text 50 company"
    and "accepted_status status"
    and "\<not> fk_refused d jobs_schema cb"
proof -
  let ?u = "useNullAsDefault d"
  let ?k = "next_id (map j_id (t_rows t)) (t_seq t)"
  from ins obtain vr vc vs where
    br: "bind_value ?u role = Inr vr" and
    bc: "bind_value ?u company = Inr vc" and
    bs: "bind_value ?u status = Inr vs"
    unfolding insert_job_def by (auto split: sum.splits)
  let ?row = "\<lparr>j_id = ?k, j_role = vr, j_company = vc, j_status = vs, j_created_by = cb,
                j_created_at = Some now, j_updated_at = Some now\<rparr>"
  note rest = ins[unfolded insert_job_bound[OF assms(1,2) br bc bs]]
  have tab: "\<not> (fk_declared d jobs_schema \<and> users d = None)"
    using rest by (auto split: if_splits)
  have v: "violations jobs_schema (map job_cells (t_rows t)) (job_cells ?row) = []"
    using rest tab
    by (cases "violations jobs_schema (map job_cells (t_rows t)) (job_cells ?row)") auto
  have fk: "\<not> fk_refused d jobs_schema cb"
    using rest tab v by (auto split: if_splits)
  have res: "k = ?k" "d' = d\<lparr>jobs := Some (t\<lparr>t_rows := t_rows t @ [?row], t_seq := ?k\<rparr>)\<rparr>"
    using rest tab v fk by auto
  have acc: "accepted_text 100 vr" "accepted_text 50 vc" "accepted_status vs"
    using v unfolding violations_jobs job_accepted_def by simp_all
  have r: "vr = role"
    using bind_value_Inr[OF br] accepted_not_None(1)[OF acc(1)] by auto
  have c: "vc = company"
    using bind_value_Inr[OF bc] accepted_not_None(1)[OF acc(2)] by auto
  have s: "vs = status"
    using bind_value_Inr[OF bs] accepted_not_None(2)[OF acc(3)] by auto
  show "k = ?k" by (rule res(1))
  show "d' = d\<lparr>jobs := Some (t\<lparr>t_rows := t_rows t @
                 [\<lparr>j_id = k, j_role = role, j_company = company,
                   j_status = status, j_created_by = cb,
                   j_created_at = Some now, j_updated_at = Some now\<rparr>],
               t_seq := k\<rparr>)\<rparr>"
    using res r c s by simp
  show "accepted_text 100 role" using acc(1) r by simp
  show "accepted_text 50 company" using acc(2) c by simp
  show "accepted_status status" using acc(3) s by simp
  show "\<not> fk_refused d jobs_schema cb" by (rule fk)
qed

lemma insert_job_succeeds:
  assumes "jobs d = Some t" and "t_schema t = jobs_schema"
    and "accepted_text 100 role" and "accepted_text 50 company"
    and "accepted_status status"
    and "\<not> fk_refused d jobs_schema cb"
  shows "\<exists>d' k. insert_job d now role company status cb = Inr (d', k)"
proof -
  have b: "bind_value (useNullAsDefault d) role = Inr role"
      "bind_value (useNullAsDefault d) company = Inr company"
      "bind_value (useNullAsDefault d) status = Inr status"
    using assms(3-5) accepted_not_None by (simp_all add: bind_value_given)
  let ?row = "\<lparr>j_id = next_id (map j_id (t_rows t)) (t_seq t), j_role = role, j_company = company,
      j_status = status, j_created_by = cb,
      j_created_at = Some now, j_updated_at = Some now\<rparr>"
  have "job_accepted ?row"
    using assms(3-5) by (simp add: job_accepted_def)
  then have v: "violations jobs_schema (map job_cells (t_rows t)) (job_cells ?row) = []"
    by (rule violations_jobs_accepted)
  have tab: "\<not> (fk_declared d jobs_schema \<and> users d = None)"
    using assms(6) by (cases "users d") (auto simp: fk_refused_def)
  show ?thesis
    unfolding insert_job_bound[OF assms(1,2) b] using v tab assms(6) by simp
qed

text \<open>
  A call that succeeds stores its four arguments under a fresh key and returns them with
  that key; it succeeds when the three text arguments are given and fit their columns
  and the owner passes the foreign key.
\<close>

lemma createJob_Inr:
  assumes "jobs d = Some t" and "t_schema t = jobs_schema"
    and "createJob d now a = Inr (d', res)"
  shows "res = \<lparr>r_id = next_id (map j_id (t_rows t)) (t_seq t), r_role = a_role a,
                 r_company = a_company a, r_status = a_status a, r_createdBy = a_createdBy a\<rparr>"
    and "d' = d\<lparr>jobs := Some (t\<lparr>t_rows := t_rows t @
                 [\<lparr>j_id = r_id res, j_role = a_role a, j_company = a_company a,
                   j_status = a_status a, j_created_by = a_createdBy a,
                   j_created_at = Some now, j_updated_at = Some now\<rparr>],
               t_seq := r_id res\<rparr>)\<rparr>"
    and "a_status a \<noteq> None"
proof -
  from assms(3) obtain k where
    i: "insert_job d now (a_role a) (a_company a) (a_status a) (a_createdBy a) = Inr (d', k)"
    and res: "res = \<lparr>r_id = k, r_role = a_role a, r_company = a_company a, r_status = a_status a,
                     r_createdBy = a_createdBy a\<rparr>"
    by (auto simp: createJob_def split: sum.splits)
  note I = insert_job_Inr[OF assms(1,2) i]
  show "res = \<lparr>r_id = next_id (map j_id (t_rows t)) (t_seq t), r_role = a_role a,
                 r_company = a_company a, r_status = a_status a, r_createdBy = a_createdBy a\<rparr>"
    using res I(1) by simp
  show "d' = d\<lparr>jobs := Some (t\<lparr>t_rows := t_rows t @
                 [\<lparr>j_id = r_id res, j_role = a_role a, j_company = a_company a,
                   j_status = a_status a, j_created_by = a_createdBy a,
                   j_created_at = Some now, j_updated_at = Some now\<rparr>],
               t_seq := r_id res\<rparr>)\<rparr>"
    using res I(2) by simp
  show "a_status a \<noteq> None"
    using I(5) by (rule accepted_not_None(2))
qed

lemma createJob_succeeds:
  assumes "jobs d = Some t" and "t_schema t = jobs_schema"
    and "accepted_text 100 (a_role a)" and "accepted_text 50 (a_company a)"
    and "accepted_status (a_status a)"
    and "\<not> fk_refused d jobs_schema (a_createdBy a)"
  shows "\<exists>d' res. createJob d now a = Inr (d', res)"
proof -
  obtain d' k where
    "insert_job d now (a_role a) (a_company a) (a_status a) (a_createdBy a) = Inr (d', k)"
    using insert_job_succeeds[OF assms] by blast
  then show ?thesis
    by (simp add: createJob_def)
qed

text \<open>An unset \<open>status\<close>: the statement is refused, or \<open>NULL\<close> is sent and refused.\<close>

lemma insert_job_unset_status:
  assumes "jobs d = Some t" and "t_schema t = jobs_schema"
  shows "\<exists>e. insert_job d now role company None cb = Inl e"
    and "\<not> useNullAsDefault d \<Longrightarrow> insert_job d now role company None cb = Inl UndefinedBinding"
    and "useNullAsDefault d \<Longrightarrow> role \<noteq> None \<Longrightarrow> company \<noteq> None \<Longrightarrow> users d \<noteq> None \<Longrightarrow>
           insert_job d now role company None cb = Inl (NotNullViolation ''status'')"
proof -
  show "\<exists>e. insert_job d now role company None cb = Inl e"
  proof (rule ccontr)
    assume "\<not> (\<exists>e. insert_job d now role company None cb = Inl e)"
    then obtain d' k where "insert_job d now role company None cb = Inr (d', k)"
      by (cases "insert_job d now role company None cb") auto
    from insert_job_Inr(5)[OF assms this] show False
      by (simp add: accepted_status_def)
  qed
  show "insert_job d now role company None cb = Inl UndefinedBinding" if "\<not> useNullAsDefault d"
    using that by (cases role; cases company) (simp_all add: insert_job_def)
  show "insert_job d now role company None cb = Inl (NotNullViolation ''status'')"
    if u: "useNullAsDefault d" and nr: "role \<noteq> None" and nc: "company \<noteq> None"
      and us: "users d \<noteq> None"
  proof -
    obtain r c where rc: "role = Some r" "company = Some c"
      using nr nc by auto
    have b: "bind_value (useNullAsDefault d) role = Inr role"
        "bind_value (useNullAsDefault d) company = Inr company"
        "bind_value (useNullAsDefault d) None = Inr None"
      using u rc by simp_all
    have "violations jobs_schema others
        (job_cells \<lparr>j_id = i, j_role = Some r, j_company = Some c, j_status = None,
           j_created_by = cb, j_created_at = ca, j_updated_at = ua\<rparr>)
        = NotNullViolation ''status'' #
          map (CheckViolation \<circ> fst)
            (filter (\<lambda>cell. \<not> cell_ok jobs_schema cell) [(''role'', Some r), (''company'', Some c)])"
      for others i ca ua
      by (simp add: violations_def job_cells_def null_refused_jobs cell_ok_jobs duplicate_jobs
            checks_jobs del: null_refused.simps cell_ok.simps duplicate.simps)
    then show ?thesis
      unfolding insert_job_bound[OF assms b] using us rc by simp
  qed
qed

section \<open>Facts about the example states\<close>

lemma ex_db_facts:
  "jobs ex_db = Some ex_jobs" "users ex_db = Some ex_users"
  "t_schema ex_jobs = jobs_schema" "t_schema ex_users = users_schema"
  "t_rows ex_jobs = [ex_job1, ex_job2]" "t_seq ex_jobs = 2"
  "useNullAsDefault ex_db" "\<not> foreign_keys ex_db"
  by (simp_all add: ex_db_def ex_jobs_def ex_users_def)

lemma ex_strict_facts:
  "jobs ex_strict = Some ex_jobs" "users ex_strict = Some ex_users"
  "\<not> useNullAsDefault ex_strict"
  by (simp_all add: ex_strict_def)

lemma ex_next_id: "next_id (map j_id (t_rows ex_jobs)) (t_seq ex_jobs) = 3"
  by (simp add: ex_db_facts next_id_def ex_job1_def ex_job2_def)

lemma ex_unset_facts:
  "a_status ex_unset = None" "a_role ex_unset \<noteq> None" "a_company ex_unset \<noteq> None"
  by (simp_all add: ex_unset_def)

text \<open>The call for the owner 99, who is no account, goes through and stores its row.\<close>

lemma ex_stray_created:
  "createJob ex_db 500 ex_stray
     = Inr (ex_db_stray, \<lparr>r_id = 3, r_role = Some ''Engineer'', r_company = Some ''Acme'',
                           r_status = Some ''pending'', r_createdBy = 99\<rparr>)"
proof -
  have acc: "accepted_text 100 (a_role ex_stray)" "accepted_text 50 (a_company ex_stray)"
      "accepted_status (a_status ex_stray)"
    by (simp_all add: ex_stray_def accepted_text_def accepted_status_def sql_length_def)
  have fk: "\<not> fk_refused ex_db jobs_schema (a_createdBy ex_stray)"
    by (simp add: fk_refused_def fk_declared_def ex_db_facts)
  obtain d' res where c: "createJob ex_db 500 ex_stray = Inr (d', res)"
    using createJob_succeeds[OF ex_db_facts(1,3) acc fk] by blast
  note R = createJob_Inr[OF ex_db_facts(1,3) c, unfolded ex_next_id]
  have res: "res = \<lparr>r_id = 3, r_role = Some ''Engineer'', r_company = Some ''Acme'',
                     r_status = Some ''pending'', r_createdBy = 99\<rparr>"
    using R(1) by (simp add: ex_stray_def)
  have "d' = ex_db_stray"
    using R(2) unfolding res
    by (simp add: ex_db_stray_def ex_stray_def ex_job3_def ex_db_facts(5))
  then show ?thesis
    using c res by simp
qed

lemma ex_db_stray_facts:
  "jobs ex_db_stray = Some (ex_jobs\<lparr>t_rows := [ex_job1, ex_job2, ex_job3], t_seq := 3\<rparr>)"
  "users ex_db_stray = Some ex_users"
  by (simp_all add: ex_db_stray_def ex_db_def)

lemma ex_users_facts:
  "t_rows ex_users = [ex_alice, ex_bob]" "t_seq ex_users = 2"
  "next_id (map u_id (t_rows ex_users)) (t_seq ex_users) = 3"
  "\<not> email_taken (t_rows ex_users) ''carol@d.io''"
  by (simp_all add: ex_users_def ex_alice_def ex_bob_def next_id_def email_taken_def)

text \<open>The first registration with the email goes through.\<close>

lemma ex_carol_stored:
  "createUser ex_hash ''salt1'' ex_db ex_carol = Inr (ex_db_carol, ex_carol_created)"
proof -
  have fit: "sql_length (a_name ex_carol) \<le> 50" "like ''%@%.%'' (a_email ex_carol)"
      "6 \<le> sql_length (ex_hash (a_password ex_carol) ''salt1'')"
      "\<not> email_taken (t_rows ex_users) (a_email ex_carol)"
    using ex_users_facts(4) by (simp_all add: ex_carol_def ex_hash_def sql_length_def)
  obtain d' res where c: "createUser ex_hash ''salt1'' ex_db ex_carol = Inr (d', res)"
    using createUser_succeeds[where hash = ex_hash and salt = "''salt1''", OF ex_db_facts(2,4) fit]
    by blast
  note R = createUser_Inr(1,2)[OF ex_db_facts(2,4) c, unfolded ex_users_facts(3)]
  have res: "res = ex_carol_created"
    using R(1) by (simp add: ex_carol_created_def ex_carol_def ex_hash_def)
  have "d' = ex_db_carol"
    using R(2)
    by (simp add: ex_db_carol_def ex_carol_row_def ex_carol_def ex_hash_def ex_users_facts(1))
  then show ?thesis
    using c res by simp
qed

lemma ex_db_carol_facts:
  "users ex_db_carol = Some (ex_users\<lparr>t_rows := [ex_alice, ex_bob, ex_carol_row], t_seq := 3\<rparr>)"
  "t_schema (ex_users\<lparr>t_rows := [ex_alice, ex_bob, ex_carol_row], t_seq := 3\<rparr>) = users_schema"
  "email_taken [ex_alice, ex_bob, ex_carol_row] ''carol@d.io''"
  by (simp_all add: ex_db_carol_def ex_db_def ex_users_def email_taken_def ex_carol_row_def)

lemma ex_long_facts:
  "a_email ex_long = a_email ex_carol" "sql_length (a_name ex_long) = 51"
  by (simp_all add: ex_long_def ex_carol_def sql_length_def takeWhile_replicate)

lemma ex_secret: "ex_env ''JWT_SECRET'' = Some ''s3cret''"
  by (simp add: ex_env_def)

lemma ex_token:
  "createJWT ex_mac ex_env 1000 ex_alice
     = Inr \<lparr>tk_payload = ex_claims, tk_signature = (''s3cret'', ex_claims)\<rparr>"
  unfolding createJWT_def jwt_sign_def ex_secret
  by (simp add: Let_def days_def ex_alice_def json_text_def ex_mac_def ex_claims_def)
section \<open>The invariants hold from start-up on\<close>

text \<open>
  Both invariants hold once the two \<open>initTable\<close> calls have run on a database without
  tables.  Every method keeps the first.  The second is kept by every method but
  \<open>createJob\<close>, which keeps it when the owner it is given is an account: the engine
  checks that only when foreign keys are enforced, and on a connection that does not
  enforce them \<open>ex_stray_created\<close> above is a call that breaks it.
\<close>

lemma insert_job_rows:
  assumes "jobs d = Some t" and "insert_job d now role company status cb = Inr (d', k)"
  shows "\<exists>row. d' = d\<lparr>jobs := Some (t\<lparr>t_rows := t_rows t @ [row], t_seq := k\<rparr>)\<rparr>
           \<and> j_id row = k \<and> k = next_id (map j_id (t_rows t)) (t_seq t)
           \<and> j_created_by row = cb \<and> \<not> fk_refused d (t_schema t) cb"
  using assms
  by (auto simp: insert_job_def Let_def split: sum.splits list.splits if_splits)

lemma insert_user_rows:
  assumes "users d = Some t" and "insert_user d name email password = Inr (d', k)"
  shows "\<exists>row. d' = d\<lparr>users := Some (t\<lparr>t_rows := t_rows t @ [row], t_seq := k\<rparr>)\<rparr>
           \<and> u_id row = k \<and> k = next_id (map u_id (t_rows t)) (t_seq t)"
  using assms
  by (auto simp: insert_user_def Let_def split: list.splits)

lemma initTable_invariants:
  "keys_unique d \<Longrightarrow> keys_unique (User_initTable d)"
  "keys_unique d \<Longrightarrow> keys_unique (Job_initTable d)"
  "owners_exist d \<Longrightarrow> owners_exist (Job_initTable d)"
  "owners_exist (Job_initTable (User_initTable
     \<lparr>users = None, jobs = None, foreign_keys = fk, useNullAsDefault = u\<rparr>))"
  "keys_unique (Job_initTable (User_initTable
     \<lparr>users = None, jobs = None, foreign_keys = fk, useNullAsDefault = u\<rparr>))"
  by (auto simp: keys_unique_def owners_exist_def User_initTable_def Job_initTable_def
        split: option.splits)

lemma createUser_invariants:
  assumes "createUser hash salt d a = Inr (d', res)"
  shows "keys_unique d \<Longrightarrow> keys_unique d'" and "owners_exist d \<Longrightarrow> owners_exist d'"
proof -
  obtain t where t: "users d = Some t"
    using assms by (cases "users d") (auto simp: createUser_def insert_user_def Let_def)
  obtain k where "insert_user d (Some (a_name a)) (Some (a_email a)) (Some (hash (a_password a) salt))
      = Inr (d', k)"
    using assms by (auto simp: createUser_def Let_def split: sum.splits)
  then obtain row where d': "d' = d\<lparr>users := Some (t\<lparr>t_rows := t_rows t @ [row], t_seq := k\<rparr>)\<rparr>"
      and k: "u_id row = k" "k = next_id (map u_id (t_rows t)) (t_seq t)"
    using insert_user_rows[OF t] by blast
  have fresh: "u_id row \<notin> set (map u_id (t_rows t))"
    using k next_id_fresh by metis
  show "keys_unique d \<Longrightarrow> keys_unique d'"
    using t d' fresh by (auto simp: keys_unique_def split: option.splits)
  show "owners_exist d \<Longrightarrow> owners_exist d'"
    using t d' by (auto simp: owners_exist_def list_all_iff split: option.splits)
qed

lemma createJob_invariants:
  assumes "createJob d now a = Inr (d', res)"
  shows "keys_unique d \<Longrightarrow> keys_unique d'"
    and "owners_exist d \<Longrightarrow> (\<exists>ut. users d = Some ut \<and> a_createdBy a \<in> set (map u_id (t_rows ut)))
           \<Longrightarrow> owners_exist d'"
proof -
  obtain t where t: "jobs d = Some t"
    using assms by (cases "jobs d") (auto simp: createJob_def insert_job_def split: sum.splits)
  obtain k where "insert_job d now (a_role a) (a_company a) (a_status a) (a_createdBy a) = Inr (d', k)"
    using assms by (auto simp: createJob_def split: sum.splits)
  then obtain row where d': "d' = d\<lparr>jobs := Some (t\<lparr>t_rows := t_rows t @ [row], t_seq := k\<rparr>)\<rparr>"
      and k: "j_id row = k" "k = next_id (map j_id (t_rows t)) (t_seq t)"
      and cb: "j_created_by row = a_createdBy a"
    using insert_job_rows[OF t] by blast
  have fresh: "j_id row \<notin> set (map j_id (t_rows t))"
    using k next_id_fresh by metis
  show "keys_unique d \<Longrightarrow> keys_unique d'"
    using t d' fresh by (auto simp: keys_unique_def split: option.splits)
  show "owners_exist d \<Longrightarrow> (\<exists>ut. users d = Some ut \<and> a_createdBy a \<in> set (map u_id (t_rows ut)))
           \<Longrightarrow> owners_exist d'"
    using t d' cb by (auto simp: owners_exist_def list_all_iff split: option.splits)
qed

text \<open>With foreign keys enforced on the declared schema, \<open>createJob\<close> checks the owner itself.\<close>

lemma createJob_owner_checked:
  assumes "jobs d = Some t" and "t_schema t = jobs_schema" and "foreign_keys d"
    and "createJob d now a = Inr (d', res)"
  shows "\<exists>ut. users d = Some ut \<and> a_createdBy a \<in> set (map u_id (t_rows ut))"
proof -
  obtain k where k: "insert_job d now (a_role a) (a_company a) (a_status a) (a_createdBy a) = Inr (d', k)"
    using assms(4) by (auto simp: createJob_def split: sum.splits)
  have "\<not> fk_refused d jobs_schema (a_createdBy a)"
    using insert_job_rows[OF assms(1) k] assms(2) by auto
  then show ?thesis
    using assms(3) by (auto simp: fk_refused_def fk_declared_def attrs_jobs split: option.splits)
qed

lemma apply_updates_keeps:
  "j_id (apply_updates u j) = j_id j" "j_created_by (apply_updates u j) = j_created_by j"
  by (simp_all add: apply_updates_def)

lemma updateJob_invariants:
  assumes "updateJob d now jobId userId p = Inr (d', res)"
  shows "keys_unique d \<Longrightarrow> keys_unique d'" and "owners_exist d \<Longrightarrow> owners_exist d'"
proof -
  obtain t where t: "jobs d = Some t"
    using assms by (cases "jobs d") (auto simp: updateJob_def Let_def)
  let ?f = "\<lambda>j. if owned jobId userId j then apply_updates (make_updates now p) j else j"
  have d': "d' = d\<lparr>jobs := Some (t\<lparr>t_rows := map ?f (t_rows t)\<rparr>)\<rparr>"
    using updateJob_rows(1)[OF t assms] .
  have ids: "map j_id (map ?f (t_rows t)) = map j_id (t_rows t)"
    by (simp add: apply_updates_keeps comp_def if_distrib[of j_id] cong: if_cong)
  show "keys_unique d \<Longrightarrow> keys_unique d'"
    using t unfolding d' keys_unique_def
    by (simp add: ids[unfolded map_map] split: option.splits)
  show "owners_exist d \<Longrightarrow> owners_exist d'"
    using t unfolding d' owners_exist_def
    by (auto simp: list_all_iff apply_updates_keeps split: option.splits)
qed

lemma deleteJob_invariants:
  assumes "deleteJob d jobId userId = Inr (d', n)"
  shows "keys_unique d \<Longrightarrow> keys_unique d'" and "owners_exist d \<Longrightarrow> owners_exist d'"
proof -
  obtain t where t: "jobs d = Some t"
    using assms by (cases "jobs d") (auto simp: deleteJob_def)
  have d': "d' = d\<lparr>jobs := Some (t\<lparr>t_rows := filter (\<lambda>j. \<not> owned jobId userId j) (t_rows t)\<rparr>)\<rparr>"
    using assms deleteJob_rows[OF t, of jobId userId] by simp
  show "keys_unique d \<Longrightarrow> keys_unique d'"
    using t d' by (auto simp: keys_unique_def distinct_map_filter split: option.splits)
  show "owners_exist d \<Longrightarrow> owners_exist d'"
    using t d' by (auto simp: owners_exist_def list_all_iff split: option.splits)
qed

section \<open>The claims\<close>

text \<open>
  C1.  \<open>getSingleJob\<close>, \<open>getAllJobs\<close>, \<open>updateJob\<close> and \<open>deleteJob\<close> all select by
  \<open>created_by = userId\<close>.  Let \<open>r\<close> be a row of \<open>jobs\<close> created by \<open>A\<close>, the primary
  keys be distinct, and \<open>B\<close> another owner.  Then \<open>getSingleJob\<close> for \<open>r\<close>'s key and
  \<open>B\<close> returns \<open>undefined\<close>, which is what it returns for a key no row has; whatever
  \<open>getSingleJob\<close> and \<open>getAllJobs\<close> return to \<open>B\<close> is owned by \<open>B\<close>, so never \<open>r\<close>;
  and after any \<open>updateJob\<close> or \<open>deleteJob\<close> by \<open>B\<close>, with any key, \<open>r\<close> is still in the
  table, unchanged and in its place for an update, and the row an update returns is
  \<open>B\<close>'s.
\<close>

theorem owner_isolation:
  assumes "jobs d = Some t" and "distinct (map j_id (t_rows t))"
    and "r \<in> set (t_rows t)" and "j_created_by r = A" and "B \<noteq> A"
  shows "getSingleJob d (j_id r) B = Inr None
       \<and> (\<forall>k. k \<notin> j_id ` set (t_rows t) \<longrightarrow> getSingleJob d k B = Inr None)
       \<and> (\<forall>k found. getSingleJob d k B = Inr (Some found) \<longrightarrow>
             found \<in> set (t_rows t) \<and> j_id found = k \<and> j_created_by found = B)
       \<and> (\<forall>l. getAllJobs d B = Inr l \<longrightarrow>
             r \<notin> job.truncate ` set l \<and> (\<forall>x \<in> set l. j_created_by x = B))
       \<and> (\<forall>now k p d' res. updateJob d now k B p = Inr (d', res) \<longrightarrow>
             (\<exists>t'. jobs d' = Some t' \<and> r \<in> set (t_rows t')
                \<and> (\<forall>i < length (t_rows t). t_rows t ! i = r \<longrightarrow> t_rows t' ! i = r))
             \<and> (\<forall>x. res = Some x \<longrightarrow> j_created_by x = B))
       \<and> (\<forall>k d' n. deleteJob d k B = Inr (d', n) \<longrightarrow>
             (\<exists>t'. jobs d' = Some t' \<and> r \<in> set (t_rows t')))"
proof -
  have notB: "\<not> owned k B r" for k
    using assms(4,5) by (simp add: owned_def)
  have same_id: "x = r" if "x \<in> set (t_rows t)" "j_id x = j_id r" for x
    using that assms(2,3) by (auto simp: distinct_map dest: inj_onD)
  have c1: "getSingleJob d (j_id r) B = Inr None"
  proof -
    have "\<not> owned (j_id r) B x" if "x \<in> set (t_rows t)" for x
      using same_id[OF that] notB by (auto simp: owned_def)
    then have "find (owned (j_id r) B) (t_rows t) = None"
      by (simp add: find_None_iff)
    then show ?thesis using assms(1) by (simp add: getSingleJob_def)
  qed
  have c2: "getSingleJob d k B = Inr None" if "k \<notin> j_id ` set (t_rows t)" for k
  proof -
    have "find (owned k B) (t_rows t) = None"
      using that by (auto simp: find_None_iff owned_def)
    then show ?thesis using assms(1) by (simp add: getSingleJob_def)
  qed
  have c3: "found \<in> set (t_rows t) \<and> j_id found = k \<and> j_created_by found = B"
    if "getSingleJob d k B = Inr (Some found)" for k found
  proof -
    have "find (owned k B) (t_rows t) = Some found"
      using that assms(1) by (simp add: getSingleJob_def)
    then show ?thesis
      by (auto simp: find_Some_iff owned_def)
  qed
  have c4: "r \<notin> job.truncate ` set l \<and> (\<forall>x \<in> set l. j_created_by x = B)"
    if "getAllJobs d B = Inr l" for l
  proof -
    have all: "\<forall>x \<in> set l. j_created_by x = B \<and> j_created_by (job.truncate x) = B"
      using that assms(1) by (auto simp: getAllJobs_def split: option.splits)
    then show ?thesis using assms(4,5) by auto
  qed
  have c5: "(\<exists>t'. jobs d' = Some t' \<and> r \<in> set (t_rows t')
                \<and> (\<forall>i < length (t_rows t). t_rows t ! i = r \<longrightarrow> t_rows t' ! i = r))
             \<and> (\<forall>x. res = Some x \<longrightarrow> j_created_by x = B)"
    if u: "updateJob d now k B p = Inr (d', res)" for now k p d' res
  proof -
    let ?f = "\<lambda>j. if owned k B j then apply_updates (make_updates now p) j else j"
    have d': "jobs d' = Some (t\<lparr>t_rows := map ?f (t_rows t)\<rparr>)"
      using updateJob_rows(1)[OF assms(1) u] by simp
    have "r = ?f r" using notB by simp
    from this assms(3) have "r \<in> ?f ` set (t_rows t)"
      by (rule image_eqI)
    then have "r \<in> set (map ?f (t_rows t))"
      by simp
    moreover have "\<forall>i < length (t_rows t). t_rows t ! i = r \<longrightarrow> map ?f (t_rows t) ! i = r"
      using notB by simp
    moreover have "j_created_by x = B" if "res = Some x" for x
    proof (cases "filter (owned k B) (t_rows t)")
      case Nil
      then show ?thesis
        using updateJob_rows(2)[OF assms(1) u] that by simp
    next
      case (Cons j js)
      then have x: "x = apply_updates (make_updates now p) j"
        using updateJob_rows(2)[OF assms(1) u] that by simp
      have "j \<in> set (filter (owned k B) (t_rows t))"
        using Cons by simp
      then have "owned k B j" by simp
      then show ?thesis using x by (simp add: owned_def apply_updates_def)
    qed
    ultimately show ?thesis using d' by auto
  qed
  have c6: "\<exists>t'. jobs d' = Some t' \<and> r \<in> set (t_rows t')"
    if "deleteJob d k B = Inr (d', n)" for k d' n
    using that deleteJob_rows[OF assms(1), of k B] assms(3) notB by auto
  show ?thesis
    using c1 c2 c3 c4 c5 c6 by blast
qed

theorem owner_isolation_witness:
  "jobs ex_db = Some ex_jobs \<and> distinct (map j_id (t_rows ex_jobs))
   \<and> ex_job1 \<in> set (t_rows ex_jobs) \<and> j_created_by ex_job1 = 1 \<and> j_id ex_job1 = 1
   \<and> getSingleJob ex_db 1 2 = Inr None
   \<and> getSingleJob ex_db 7 2 = Inr None
   \<and> getSingleJob ex_db 1 1 = Inr (Some ex_job1)"
proof -
  have h1: "jobs ex_db = Some ex_jobs"
    by (simp add: ex_db_def)
  have h2: "distinct (map j_id (t_rows ex_jobs))"
    by (simp add: ex_jobs_def ex_job1_def ex_job2_def)
  have h3: "ex_job1 \<in> set (t_rows ex_jobs)"
    by (simp add: ex_jobs_def)
  have h4: "j_created_by ex_job1 = 1"
    by (simp add: ex_job1_def)
  have h5: "(2::nat) \<noteq> 1"
    by simp
  have k: "j_id ex_job1 = 1"
    by (simp add: ex_job1_def)
  have absent: "(7::nat) \<notin> j_id ` set (t_rows ex_jobs)"
    by (simp add: ex_jobs_def ex_job1_def ex_job2_def)
  have own: "getSingleJob ex_db 1 1 = Inr (Some ex_job1)"
    by (simp add: getSingleJob_def ex_db_def ex_jobs_def owned_def ex_job1_def)
  note T = owner_isolation[OF h1 h2 h3 h4 h5]
  have "getSingleJob ex_db (j_id ex_job1) 2 = Inr None"
    using T by (rule conjunct1)
  then have a: "getSingleJob ex_db 1 2 = Inr None"
    unfolding k .
  have "\<forall>k. k \<notin> j_id ` set (t_rows ex_jobs) \<longrightarrow> getSingleJob ex_db k 2 = Inr None"
    using T by (rule conjunct2[THEN conjunct1])
  then have b: "getSingleJob ex_db 7 2 = Inr None"
    using absent by blast
  show ?thesis
    using h1 h2 h3 h4 k a b own by blast
qed

text \<open>
  C2.  Let \<open>r\<close> be the row with key \<open>jobId\<close> that \<open>userId\<close> owns, in a \<open>jobs\<close> table with
  the declared schema and distinct keys, and let \<open>r'\<close> be \<open>r\<close> with each of \<open>role\<close>,
  \<open>company\<close>, \<open>status\<close> replaced by the payload's value when that value is truthy and
  left alone when it is falsy (missing or the empty string), and \<open>updated_at\<close> set to the
  current time.  Every successful \<open>updateJob\<close> returns \<open>r'\<close> and puts it in \<open>r\<close>'s place,
  changing nothing else.  The update succeeds whenever the schema accepts \<open>r'\<close>; more
  precisely it succeeds exactly when each truthy value of the payload fits its column,
  whatever the columns it leaves alone hold, and the schema accepts \<open>r'\<close> whenever it
  accepted \<open>r\<close> and the truthy values fit.  In particular a payload with no truthy field
  always succeeds and still refreshes \<open>updated_at\<close>.
\<close>

theorem updateJob_truthy_fields:
  assumes "jobs d = Some t" and "t_schema t = jobs_schema"
    and "distinct (map j_id (t_rows t))"
    and "r \<in> set (t_rows t)" and "j_id r = jobId" and "j_created_by r = userId"
  shows "let r' = r\<lparr>j_role := (if truthy (p_role p) then p_role p else j_role r),
                    j_company := (if truthy (p_company p) then p_company p else j_company r),
                    j_status := (if truthy (p_status p) then p_status p else j_status r),
                    j_updated_at := Some now\<rparr>;
             d' = d\<lparr>jobs := Some (t\<lparr>t_rows := map (\<lambda>j. if j = r then r' else j) (t_rows t)\<rparr>)\<rparr>
         in (\<forall>d'' res. updateJob d now jobId userId p = Inr (d'', res) \<longrightarrow> d'' = d' \<and> res = Some r')
          \<and> (job_accepted r' \<longrightarrow> updateJob d now jobId userId p = Inr (d', Some r'))
          \<and> (payload_fits p \<longrightarrow> updateJob d now jobId userId p = Inr (d', Some r'))
          \<and> (\<not> payload_fits p \<longrightarrow> (\<exists>e. updateJob d now jobId userId p = Inl e))
          \<and> (job_accepted r
               \<and> (truthy (p_role p) \<longrightarrow> accepted_text 100 (p_role p))
               \<and> (truthy (p_company p) \<longrightarrow> accepted_text 50 (p_company p))
               \<and> (truthy (p_status p) \<longrightarrow> accepted_status (p_status p))
               \<longrightarrow> job_accepted r')"
proof -
  define r' where "r' = r\<lparr>j_role := (if truthy (p_role p) then p_role p else j_role r),
                    j_company := (if truthy (p_company p) then p_company p else j_company r),
                    j_status := (if truthy (p_status p) then p_status p else j_status r),
                    j_updated_at := Some now\<rparr>"
  define d' where "d' = d\<lparr>jobs := Some (t\<lparr>t_rows := map (\<lambda>j. if j = r then r' else j) (t_rows t)\<rparr>)\<rparr>"
  define vs where "vs = violations jobs_schema
      (map job_cells (filter (\<lambda>j. \<not> owned jobId userId j) (t_rows t)))
      (update_cells (make_updates now p))"
  have o: "owned jobId userId r"
    using assms(5,6) by (simp add: owned_def)
  have ap: "apply_updates (make_updates now p) r = r'"
    unfolding r'_def by (rule apply_make_updates)
  have u: "updateJob d now jobId userId p
      = (case vs of e # _ \<Rightarrow> Inl e | [] \<Rightarrow> Inr (d', Some r'))"
    using updateJob_owned[OF assms(1,3,4) o, of now p]
    unfolding assms(2) ap d'_def vs_def .
  have vs: "(vs = []) = payload_fits p"
    unfolding vs_def by (rule violations_update)
  have fits: "updateJob d now jobId userId p = Inr (d', Some r')" if "payload_fits p"
    using that u vs by simp
  have ok: "updateJob d now jobId userId p = Inr (d', Some r')" if "job_accepted r'"
    using that[unfolded r'_def] by (intro fits accepted_fits)
  have bad: "\<exists>e. updateJob d now jobId userId p = Inl e" if "\<not> payload_fits p"
    using that u vs by (cases vs) simp_all
  have succ: "d'' = d' \<and> res = Some r'"
    if "updateJob d now jobId userId p = Inr (d'', res)" for d'' res
    using that u by (cases vs) simp_all
  have pres: "job_accepted r'"
    if "job_accepted r" and "truthy (p_role p) \<longrightarrow> accepted_text 100 (p_role p)"
      and "truthy (p_company p) \<longrightarrow> accepted_text 50 (p_company p)"
      and "truthy (p_status p) \<longrightarrow> accepted_status (p_status p)"
    using that unfolding r'_def job_accepted_def by simp
  note facts = ok fits bad succ pres
  show ?thesis
    unfolding Let_def using facts[unfolded d'_def r'_def] by blast
qed

theorem updateJob_truthy_fields_witness:
  "jobs ex_db = Some ex_jobs \<and> t_schema ex_jobs = jobs_schema
   \<and> distinct (map j_id (t_rows ex_jobs)) \<and> ex_job1 \<in> set (t_rows ex_jobs)
   \<and> j_id ex_job1 = 1 \<and> j_created_by ex_job1 = 1
   \<and> truthy (p_role ex_payload) \<and> \<not> truthy (p_company ex_payload) \<and> \<not> truthy (p_status ex_payload)
   \<and> updateJob ex_db 500 1 1 ex_payload
       = Inr (ex_db\<lparr>jobs := Some (ex_jobs\<lparr>t_rows :=
                 [ex_job1\<lparr>j_role := Some ''Lead'', j_updated_at := Some 500\<rparr>, ex_job2]\<rparr>)\<rparr>,
              Some (ex_job1\<lparr>j_role := Some ''Lead'', j_updated_at := Some 500\<rparr>))
   \<and> p_status ex_blank = Some [] \<and> \<not> truthy (p_status ex_blank)
   \<and> updateJob ex_db 500 1 1 ex_blank
       = Inr (ex_db\<lparr>jobs := Some (ex_jobs\<lparr>t_rows :=
                 [ex_job1\<lparr>j_updated_at := Some 500\<rparr>, ex_job2]\<rparr>)\<rparr>,
              Some (ex_job1\<lparr>j_updated_at := Some 500\<rparr>))
   \<and> truthy (p_status ex_wrong) \<and> \<not> payload_fits ex_wrong
   \<and> (\<exists>e. updateJob ex_db 500 1 1 ex_wrong = Inl e)"
proof -
  have h1: "jobs ex_db = Some ex_jobs"
    by (simp add: ex_db_def)
  have h2: "t_schema ex_jobs = jobs_schema"
    by (simp add: ex_jobs_def)
  have h3: "distinct (map j_id (t_rows ex_jobs))"
    by (simp add: ex_jobs_def ex_job1_def ex_job2_def)
  have h4: "ex_job1 \<in> set (t_rows ex_jobs)"
    by (simp add: ex_jobs_def)
  have h5: "j_id ex_job1 = 1" and h6: "j_created_by ex_job1 = 1"
    by (simp_all add: ex_job1_def)
  have p: "truthy (p_role ex_payload)" "\<not> truthy (p_company ex_payload)"
      "\<not> truthy (p_status ex_payload)" "p_role ex_payload = Some ''Lead''"
    by (simp_all add: ex_payload_def)
  have r': "ex_job1\<lparr>j_role := (if truthy (p_role ex_payload) then p_role ex_payload else j_role ex_job1),
                    j_company := (if truthy (p_company ex_payload) then p_company ex_payload else j_company ex_job1),
                    j_status := (if truthy (p_status ex_payload) then p_status ex_payload else j_status ex_job1),
                    j_updated_at := Some 500\<rparr>
            = ex_job1\<lparr>j_role := Some ''Lead'', j_updated_at := Some 500\<rparr>"
    by (simp add: p)
  have acc: "job_accepted (ex_job1\<lparr>j_role := Some ''Lead'', j_updated_at := Some 500\<rparr>)"
    by (simp add: job_accepted_def accepted_text_def accepted_status_def sql_length_def ex_job1_def)
  have rows: "map (\<lambda>j. if j = ex_job1 then ex_job1\<lparr>j_role := Some ''Lead'', j_updated_at := Some 500\<rparr> else j)
                (t_rows ex_jobs)
            = [ex_job1\<lparr>j_role := Some ''Lead'', j_updated_at := Some 500\<rparr>, ex_job2]"
    by (simp add: ex_jobs_def ex_job1_def ex_job2_def)
  have "updateJob ex_db 500 1 1 ex_payload
       = Inr (ex_db\<lparr>jobs := Some (ex_jobs\<lparr>t_rows :=
                 [ex_job1\<lparr>j_role := Some ''Lead'', j_updated_at := Some 500\<rparr>, ex_job2]\<rparr>)\<rparr>,
              Some (ex_job1\<lparr>j_role := Some ''Lead'', j_updated_at := Some 500\<rparr>))"
    using updateJob_truthy_fields[OF h1 h2 h3 h4 h5 h6, where p = ex_payload and now = 500] acc
    unfolding Let_def r' rows by blast
  note first = this
  have q: "\<not> truthy (p_role ex_blank)" "\<not> truthy (p_company ex_blank)"
      "\<not> truthy (p_status ex_blank)" "p_status ex_blank = Some []"
    by (simp_all add: ex_blank_def)
  have s': "ex_job1\<lparr>j_role := (if truthy (p_role ex_blank) then p_role ex_blank else j_role ex_job1),
                    j_company := (if truthy (p_company ex_blank) then p_company ex_blank else j_company ex_job1),
                    j_status := (if truthy (p_status ex_blank) then p_status ex_blank else j_status ex_job1),
                    j_updated_at := Some 500\<rparr>
            = ex_job1\<lparr>j_updated_at := Some 500\<rparr>"
    by (simp add: q)
  have acc': "job_accepted (ex_job1\<lparr>j_updated_at := Some 500\<rparr>)"
    by (simp add: job_accepted_def accepted_text_def accepted_status_def sql_length_def ex_job1_def)
  have rows': "map (\<lambda>j. if j = ex_job1 then ex_job1\<lparr>j_updated_at := Some 500\<rparr> else j)
                (t_rows ex_jobs)
            = [ex_job1\<lparr>j_updated_at := Some 500\<rparr>, ex_job2]"
    by (simp add: ex_jobs_def ex_job1_def ex_job2_def)
  have second: "updateJob ex_db 500 1 1 ex_blank
       = Inr (ex_db\<lparr>jobs := Some (ex_jobs\<lparr>t_rows :=
                 [ex_job1\<lparr>j_updated_at := Some 500\<rparr>, ex_job2]\<rparr>)\<rparr>,
              Some (ex_job1\<lparr>j_updated_at := Some 500\<rparr>))"
    using updateJob_truthy_fields[OF h1 h2 h3 h4 h5 h6, where p = ex_blank and now = 500] acc'
    unfolding Let_def s' rows' by blast
  have w: "truthy (p_status ex_wrong)" "\<not> payload_fits ex_wrong"
    by (simp_all add: ex_wrong_def payload_fits_def accepted_status_def)
  have third: "\<exists>e. updateJob ex_db 500 1 1 ex_wrong = Inl e"
    using updateJob_truthy_fields[OF h1 h2 h3 h4 h5 h6, where p = ex_wrong and now = 500] w(2)
    unfolding Let_def by blast
  show ?thesis
    using h1 h2 h3 h4 h5 h6 p(1-3) first q(3,4) second w third by blast
qed

text \<open>
  C3.  \<open>initTable\<close> declares \<open>pending\<close> as the default of \<open>status\<close>, but \<open>createJob\<close> never
  lets the column take it: the insert always names the \<open>status\<close> key, so a call that
  leaves \<open>status\<close> out hands \<open>undefined\<close> to the statement.  On a \<open>jobs\<close> table with the
  declared schema every such call fails, stores nothing and returns no record: the
  statement is refused for its \<open>undefined\<close> value on a connection without
  \<open>useNullAsDefault\<close>, and with it the value is bound as \<open>NULL\<close>, which the column's
  \<open>NOT NULL\<close> refuses (the first error of a call whose \<open>role\<close> and \<open>company\<close> are given).
\<close>

theorem createJob_unset_status_fails:
  assumes "jobs d = Some t" and "t_schema t = jobs_schema" and "a_status a = None"
  shows "(\<exists>e. createJob d now a = Inl e)
       \<and> db_after d (createJob d now a) = d
       \<and> (\<not> useNullAsDefault d \<longrightarrow> createJob d now a = Inl UndefinedBinding)
       \<and> (useNullAsDefault d \<and> a_role a \<noteq> None \<and> a_company a \<noteq> None \<and> users d \<noteq> None
            \<longrightarrow> createJob d now a = Inl (NotNullViolation ''status''))
       \<and> default_text (attrs_of jobs_schema ''status'') = Some ''pending''"
proof -
  note I = insert_job_unset_status[OF assms(1,2), where now = now and role = "a_role a"
      and company = "a_company a" and cb = "a_createdBy a"]
  have c: "createJob d now a = Inl e"
    if "insert_job d now (a_role a) (a_company a) None (a_createdBy a) = Inl e" for e
    using that by (simp add: createJob_def assms(3))
  obtain e where e: "createJob d now a = Inl e"
    using I(1) c by blast
  have 1: "\<exists>e. createJob d now a = Inl e"
    using e by blast
  have 2: "db_after d (createJob d now a) = d"
    unfolding e by (simp add: db_after_def)
  have 3: "createJob d now a = Inl UndefinedBinding" if "\<not> useNullAsDefault d"
    by (rule c[OF I(2)[OF that]])
  have 4: "createJob d now a = Inl (NotNullViolation ''status'')"
    if "useNullAsDefault d" and "a_role a \<noteq> None" and "a_company a \<noteq> None" and "users d \<noteq> None"
    by (rule c[OF I(3)[OF that]])
  show ?thesis
    using 1 2 3 4 default_text_jobs(3) by blast
qed

theorem createJob_unset_status_fails_witness:
  "jobs ex_db = Some ex_jobs \<and> t_schema ex_jobs = jobs_schema \<and> a_status ex_unset = None
   \<and> useNullAsDefault ex_db
   \<and> createJob ex_db 500 ex_unset = Inl (NotNullViolation ''status'')
   \<and> db_after ex_db (createJob ex_db 500 ex_unset) = ex_db
   \<and> jobs ex_strict = Some ex_jobs \<and> \<not> useNullAsDefault ex_strict
   \<and> createJob ex_strict 500 ex_unset = Inl UndefinedBinding
   \<and> db_after ex_strict (createJob ex_strict 500 ex_unset) = ex_strict"
proof -
  note A = createJob_unset_status_fails[OF ex_db_facts(1,3) ex_unset_facts(1), of 500]
  note B = createJob_unset_status_fails[OF ex_strict_facts(1) ex_db_facts(3) ex_unset_facts(1), of 500]
  have u: "users ex_db \<noteq> None"
    by (simp add: ex_db_facts)
  have a: "createJob ex_db 500 ex_unset = Inl (NotNullViolation ''status'')"
    using A[THEN conjunct2, THEN conjunct2, THEN conjunct2, THEN conjunct1]
      ex_db_facts(7) ex_unset_facts(2,3) u by blast
  have b: "createJob ex_strict 500 ex_unset = Inl UndefinedBinding"
    using B[THEN conjunct2, THEN conjunct2, THEN conjunct1] ex_strict_facts(3) by blast
  show ?thesis
    using ex_db_facts(1,3,7) ex_unset_facts(1) ex_strict_facts(1,3) a b
      A[THEN conjunct2, THEN conjunct1] B[THEN conjunct2, THEN conjunct1]
    by blast
qed

text \<open>
  C4, as the code has it.  When the environment sets a non-empty \<open>JWT_SECRET\<close>,
  \<open>createJWT\<close> returns a token whose payload holds the account's id under \<open>userId\<close> and
  its name under \<open>name\<close>, then the issue time and an expiry exactly 30 days (2592000
  seconds) later, and whose signature is the signing function applied to that secret and
  that payload.  The payload has no field \<open>accountId\<close>.
\<close>

theorem createJWT_payload:
  assumes "env ''JWT_SECRET'' = Some secret" and "secret \<noteq> []"
  shows "\<exists>tok. createJWT mac env now user = Inr tok
           \<and> tk_payload tok = [(''userId'', JNum (u_id user)), (''name'', json_text (u_name user)),
                               (''iat'', JNum now), (''exp'', JNum (now + 30 * 24 * 60 * 60))]
           \<and> map_of (tk_payload tok) ''userId'' = Some (JNum (u_id user))
           \<and> map_of (tk_payload tok) ''name'' = Some (json_text (u_name user))
           \<and> map_of (tk_payload tok) ''accountId'' = None
           \<and> tk_signature tok = mac secret (tk_payload tok)"
  using assms by (simp add: createJWT_def jwt_sign_def days_def Let_def)

theorem createJWT_payload_witness:
  "ex_env ''JWT_SECRET'' = Some ''s3cret''
   \<and> createJWT ex_mac ex_env 1000 ex_alice
       = Inr \<lparr>tk_payload = ex_claims, tk_signature = (''s3cret'', ex_claims)\<rparr>
   \<and> map_of ex_claims ''userId'' = Some (JNum (u_id ex_alice))"
proof -
  have h2: "''s3cret'' \<noteq> []"
    by simp
  from createJWT_payload[where env = ex_env and mac = ex_mac and now = 1000 and user = ex_alice,
      OF ex_secret h2]
  obtain tok where t: "createJWT ex_mac ex_env 1000 ex_alice = Inr tok"
    and u: "map_of (tk_payload tok) ''userId'' = Some (JNum (u_id ex_alice))"
    by blast
  have "tok = \<lparr>tk_payload = ex_claims, tk_signature = (''s3cret'', ex_claims)\<rparr>"
    using t unfolding ex_token by simp
  then show ?thesis
    using u ex_secret ex_token by simp
qed

text \<open>
  The claim as stated fails on the field name: the token issued to the first account
  carries its id under \<open>userId\<close>, and nothing under \<open>accountId\<close>.
\<close>

theorem createJWT_accountId_counterexample:
  "createJWT ex_mac ex_env 1000 ex_alice
     = Inr \<lparr>tk_payload = ex_claims, tk_signature = (''s3cret'', ex_claims)\<rparr>
   \<and> map_of ex_claims ''accountId'' = None
   \<and> map_of ex_claims ''userId'' = Some (JNum 1)"
proof -
  have "map_of ex_claims ''accountId'' = None"
    by (simp add: ex_claims_def)
  moreover have "map_of ex_claims ''userId'' = Some (JNum 1)"
    by (simp add: ex_claims_def)
  ultimately show ?thesis
    using ex_token by simp
qed

text \<open>
  C6, as the code has it.  The \<open>users\<close> table is created with \<open>unique()\<close> on \<open>email\<close>, and
  the engine checks it on every insert, after the \<open>CHECK\<close> constraints of the row.  So, on
  a table with the declared schema, once a \<open>createUser\<close> has succeeded, every later
  \<open>createUser\<close> with the same email fails, whatever its name, password and salt, and
  leaves the database as it was.  The error is the unique violation on \<open>email\<close> when the
  second call's name has at most 50 characters and its password hash at least 6; it is
  the \<open>CHECK\<close> violation of \<open>name\<close> for a longer name, and that of \<open>password\<close> for a
  shorter hash under a name that fits.  The first account's row is the one \<open>findByEmail\<close>
  returns afterwards, as the first call stored it.
\<close>

theorem duplicate_email_conflict:
  assumes "users d = Some t" and "t_schema t = users_schema"
    and "createUser hash salt1 d a1 = Inr (d1, res1)"
    and "a_email a2 = a_email a1"
  shows "(\<exists>e. createUser hash salt2 d1 a2 = Inl e)
       \<and> (sql_length (a_name a2) \<le> 50 \<and> 6 \<le> sql_length (hash (a_password a2) salt2)
          \<longrightarrow> createUser hash salt2 d1 a2 = Inl (UniqueViolation ''email''))
       \<and> (50 < sql_length (a_name a2)
          \<longrightarrow> createUser hash salt2 d1 a2 = Inl (CheckViolation ''name''))
       \<and> (sql_length (a_name a2) \<le> 50 \<and> sql_length (hash (a_password a2) salt2) < 6
          \<longrightarrow> createUser hash salt2 d1 a2 = Inl (CheckViolation ''password''))
       \<and> db_after d1 (createUser hash salt2 d1 a2) = d1
       \<and> findByEmail (db_after d1 (createUser hash salt2 d1 a2)) (a_email a1)
           = Inr (Some \<lparr>u_id = next_id (map u_id (t_rows t)) (t_seq t),
                        u_name = Some (a_name a1), u_email = Some (a_email a1),
                        u_password = Some (hash (a_password a1) salt1)\<rparr>)"
proof -
  define k where "k = next_id (map u_id (t_rows t)) (t_seq t)"
  define row1 where "row1 = \<lparr>u_id = k, u_name = Some (a_name a1), u_email = Some (a_email a1),
                 u_password = Some (hash (a_password a1) salt1)\<rparr>"
  define t1 where "t1 = t\<lparr>t_rows := t_rows t @ [row1], t_seq := k\<rparr>"
  define vs where "vs = violations users_schema (map user_cells (t_rows t1))
      (user_cells \<lparr>u_id = next_id (map u_id (t_rows t1)) (t_seq t1), u_name = Some (a_name a2),
                   u_email = Some (a_email a2), u_password = Some (hash (a_password a2) salt2)\<rparr>)"
  note first = createUser_Inr[OF assms(1-3)]
  have users1: "users d1 = Some t1" and schema1: "t_schema t1 = users_schema"
    using first(2) assms(2) by (simp_all add: t1_def row1_def k_def)
  have taken: "email_taken (t_rows t1) (a_email a2)"
    using assms(4) by (simp add: t1_def row1_def email_taken_append)
  have like2: "like ''%@%.%'' (a_email a2)"
    using first(3) assms(4) by simp
  have second: "createUser hash salt2 d1 a2 = Inl e" if "vs = e # es" for e es
    using users1 schema1 that
    by (simp add: createUser_def insert_user_def Let_def vs_def)
  have vs: "vs = (if sql_length (a_name a2) \<le> 50 then [] else [CheckViolation ''name''])
     @ (if 6 \<le> sql_length (hash (a_password a2) salt2) then [] else [CheckViolation ''password''])
     @ [UniqueViolation ''email'']"
    unfolding vs_def using taken like2 by (simp only: violations_users if_True append_Nil)
  have c1: "\<exists>e. createUser hash salt2 d1 a2 = Inl e"
  proof (cases vs)
    case Nil
    then show ?thesis using vs by simp
  next
    case (Cons e es)
    then show ?thesis using second by blast
  qed
  have c2: "createUser hash salt2 d1 a2 = Inl (UniqueViolation ''email'')"
    if "sql_length (a_name a2) \<le> 50 \<and> 6 \<le> sql_length (hash (a_password a2) salt2)"
    by (rule second[of _ "[]"]) (simp add: vs that)
  have c3: "createUser hash salt2 d1 a2 = Inl (CheckViolation ''name'')"
    if "50 < sql_length (a_name a2)"
    by (rule second[of _ "(if 6 \<le> sql_length (hash (a_password a2) salt2) then []
            else [CheckViolation ''password'']) @ [UniqueViolation ''email'']"])
       (use that in \<open>simp add: vs\<close>)
  have c4: "createUser hash salt2 d1 a2 = Inl (CheckViolation ''password'')"
    if "sql_length (a_name a2) \<le> 50 \<and> sql_length (hash (a_password a2) salt2) < 6"
    by (rule second[of _ "[UniqueViolation ''email'']"]) (use that in \<open>simp add: vs\<close>)
  have c5: "db_after d1 (createUser hash salt2 d1 a2) = d1"
    using c1 by (auto simp: db_after_def)
  have "find (\<lambda>v. u_email v = Some (a_email a1)) (t_rows t @ [row1]) = Some row1"
    by (rule find_email_new[OF first(4)]) (simp add: row1_def)
  then have c6: "findByEmail d1 (a_email a1) = Inr (Some row1)"
    using users1 by (simp add: findByEmail_def t1_def)
  show ?thesis
    unfolding c5 using c1 c2 c3 c4 c6[unfolded row1_def k_def] by blast
qed

theorem duplicate_email_conflict_witness:
  "users ex_db = Some ex_users \<and> t_schema ex_users = users_schema
   \<and> createUser ex_hash ''salt1'' ex_db ex_carol = Inr (ex_db_carol, ex_carol_created)
   \<and> a_email ex_carla = a_email ex_carol
   \<and> createUser ex_hash ''salt2'' ex_db_carol ex_carla = Inl (UniqueViolation ''email'')
   \<and> db_after ex_db_carol (createUser ex_hash ''salt2'' ex_db_carol ex_carla) = ex_db_carol
   \<and> findByEmail ex_db_carol ''carol@d.io'' = Inr (Some ex_carol_row)"
proof -
  have h4: "a_email ex_carla = a_email ex_carol"
    by (simp add: ex_carla_def ex_carol_def)
  have ok: "sql_length (a_name ex_carla) \<le> 50
      \<and> 6 \<le> sql_length (ex_hash (a_password ex_carla) ''salt2'')"
    by (simp add: ex_carla_def ex_hash_def sql_length_def)
  note T = duplicate_email_conflict[OF ex_db_facts(2,4) ex_carol_stored h4, of "''salt2''"]
  have a: "createUser ex_hash ''salt2'' ex_db_carol ex_carla = Inl (UniqueViolation ''email'')"
    using T[THEN conjunct2, THEN conjunct1] ok by blast
  have b: "db_after ex_db_carol (createUser ex_hash ''salt2'' ex_db_carol ex_carla) = ex_db_carol"
    by (rule T[THEN conjunct2, THEN conjunct2, THEN conjunct2, THEN conjunct2, THEN conjunct1])
  note F = T[THEN conjunct2, THEN conjunct2, THEN conjunct2, THEN conjunct2, THEN conjunct2,
      unfolded b ex_users_facts(3)]
  have c: "findByEmail ex_db_carol ''carol@d.io'' = Inr (Some ex_carol_row)"
    using F by (simp add: ex_carol_row_def ex_carol_def ex_hash_def)
  show ?thesis
    using ex_db_facts(2,4) ex_carol_stored h4 a b c by blast
qed

text \<open>
  C6 as stated fails: after the registration of \<open>carol@d.io\<close> has succeeded, a second one
  with the same email and a name of 51 characters is refused for the length of its
  name, not as a conflict on the email.
\<close>

theorem duplicate_email_check_counterexample:
  "createUser ex_hash ''salt1'' ex_db ex_carol = Inr (ex_db_carol, ex_carol_created)
   \<and> a_email ex_long = a_email ex_carol
   \<and> createUser ex_hash ''salt2'' ex_db_carol ex_long = Inl (CheckViolation ''name'')
   \<and> createUser ex_hash ''salt2'' ex_db_carol ex_long \<noteq> Inl (UniqueViolation ''email'')"
proof -
  have vs: "violations users_schema (map user_cells [ex_alice, ex_bob, ex_carol_row])
      (user_cells \<lparr>u_id = i, u_name = Some (a_name ex_long), u_email = Some ''carol@d.io'',
                   u_password = Some ''salt2hunter22''\<rparr>)
      = [CheckViolation ''name'', UniqueViolation ''email'']" for i
    unfolding violations_users ex_long_facts(2) using ex_db_carol_facts(3) like_email_carol
    by (simp add: sql_length_def del: like.simps)
  have "createUser ex_hash ''salt2'' ex_db_carol ex_long = Inl (CheckViolation ''name'')"
    unfolding createUser_def insert_user_def ex_db_carol_facts(1)
    using vs by (simp add: Let_def ex_users_def ex_hash_def ex_long_def)
  then show ?thesis
    using ex_carol_stored ex_long_facts(1) by simp
qed

text \<open>
  C7.  With distinct primary keys, \<open>deleteJob\<close> removes the rows that match both the key
  and the owner and returns how many there were, which is 1 when the caller owns a row
  with that key and 0 otherwise.  The call after it, on the database it left, returns 0
  and changes nothing, and so does every later one: \<open>k\<close> further calls return \<open>k\<close>
  zeros.
\<close>

theorem deleteJob_once_then_zero:
  assumes "jobs d = Some t" and "distinct (map j_id (t_rows t))"
  shows "\<exists>d' n. deleteJob d jobId userId = Inr (d', n)
           \<and> n = (if \<exists>r \<in> set (t_rows t). j_id r = jobId \<and> j_created_by r = userId
                  then 1 else 0)
           \<and> (\<exists>t'. jobs d' = Some t'
                 \<and> t_rows t'
                     = filter (\<lambda>j. \<not> (j_id j = jobId \<and> j_created_by j = userId)) (t_rows t))
           \<and> deleteJob d' jobId userId = Inr (d', 0)
           \<and> (\<forall>k. deleteJob_again (Suc k) d jobId userId = Inr (d', n # replicate k 0))"
proof -
  let ?rest = "filter (\<lambda>j. \<not> owned jobId userId j) (t_rows t)"
  let ?d' = "d\<lparr>jobs := Some (t\<lparr>t_rows := ?rest\<rparr>)\<rparr>"
  let ?n = "length (filter (owned jobId userId) (t_rows t))"
  have del: "deleteJob d jobId userId = Inr (?d', ?n)"
    by (rule deleteJob_rows[OF assms(1)])
  have ex: "list_ex (owned jobId userId) (t_rows t)
      = (\<exists>r \<in> set (t_rows t). j_id r = jobId \<and> j_created_by r = userId)"
    by (simp add: list_ex_iff owned_def)
  have n: "?n = (if \<exists>r \<in> set (t_rows t). j_id r = jobId \<and> j_created_by r = userId
                 then 1 else 0)"
    using owned_count[OF assms(2), of jobId userId] ex by simp
  have jobs': "jobs ?d' = Some (t\<lparr>t_rows := ?rest\<rparr>)" by simp
  have gone: "\<not> list_ex (owned jobId userId) (t_rows (t\<lparr>t_rows := ?rest\<rparr>))"
    by (simp add: list_ex_iff)
  have again: "deleteJob ?d' jobId userId = Inr (?d', 0)"
    by (rule deleteJob_no_match[OF jobs' gone])
  have rep: "deleteJob_again (Suc k) d jobId userId = Inr (?d', ?n # replicate k 0)" for k
    using del deleteJob_again_no_match[OF jobs' gone, of k] by simp
  have rest: "?rest = filter (\<lambda>j. \<not> (j_id j = jobId \<and> j_created_by j = userId)) (t_rows t)"
    by (simp add: owned_def)
  show ?thesis
    using del n jobs' again rep rest by (intro exI[of _ ?d'] exI[of _ ?n]) auto
qed

theorem deleteJob_once_then_zero_witness:
  "jobs ex_db = Some ex_jobs \<and> distinct (map j_id (t_rows ex_jobs))
   \<and> (\<exists>d'. deleteJob ex_db 1 1 = Inr (d', 1)
          \<and> deleteJob d' 1 1 = Inr (d', 0)
          \<and> deleteJob_again (Suc 3) ex_db 1 1 = Inr (d', [1, 0, 0, 0]))
   \<and> (\<exists>d'. deleteJob ex_db 1 2 = Inr (d', 0))"
proof -
  have h1: "jobs ex_db = Some ex_jobs"
    by (simp add: ex_db_def)
  have h2: "distinct (map j_id (t_rows ex_jobs))"
    by (simp add: ex_jobs_def ex_job1_def ex_job2_def)
  have r3: "replicate 3 (0::nat) = [0, 0, 0]"
    by (simp add: numeral_3_eq_3)
  have a: "\<exists>r \<in> set (t_rows ex_jobs). j_id r = 1 \<and> j_created_by r = 1"
    by (simp add: ex_jobs_def ex_job1_def ex_job2_def)
  have b: "\<not> (\<exists>r \<in> set (t_rows ex_jobs). j_id r = 1 \<and> j_created_by r = 2)"
    by (simp add: ex_jobs_def ex_job1_def ex_job2_def)
  from deleteJob_once_then_zero[OF h1 h2, of 1 1] a r3
  have one: "\<exists>d'. deleteJob ex_db 1 1 = Inr (d', 1)
          \<and> deleteJob d' 1 1 = Inr (d', 0)
          \<and> deleteJob_again (Suc 3) ex_db 1 1 = Inr (d', [1, 0, 0, 0])"
    by (metis (no_types, lifting))
  from deleteJob_once_then_zero[OF h1 h2, of 1 2] b
  have two: "\<exists>d'. deleteJob ex_db 1 2 = Inr (d', 0)"
    by (metis (no_types, lifting))
  show ?thesis
    using h1 h2 one two by blast
qed

text \<open>
  C8, as the code has it.  \<open>getAllJobs\<close> reads the jobs through an inner join with
  \<open>users\<close>.  Where account keys are distinct (the primary key of \<open>users\<close>), it returns,
  for an \<open>ownerId\<close> that is the key of an account, exactly the \<open>jobs\<close> rows whose
  \<open>created_by\<close> is \<open>ownerId\<close> (as a multiset: the same rows, each as often as the table
  holds it, in no promised order), each with \<open>creator_name\<close> set to the name of that
  account; for an \<open>ownerId\<close> that is no account's key it returns nothing, whatever rows
  of \<open>jobs\<close> carry that \<open>created_by\<close>.
\<close>

theorem getAllJobs_exact:
  assumes "jobs d = Some jt" and "users d = Some ut"
    and "distinct (map u_id (t_rows ut))"
  shows "\<exists>l. getAllJobs d ownerId = Inr l
          \<and> mset (map job.truncate l)
              = (if ownerId \<in> u_id ` set (t_rows ut)
                 then mset (filter (\<lambda>j. j_created_by j = ownerId) (t_rows jt)) else {#})
          \<and> (\<forall>x \<in> set l. \<exists>u \<in> set (t_rows ut). u_id u = ownerId \<and> creator_name x = u_name u)"
proof -
  obtain l where l: "getAllJobs d ownerId = Inr l"
      "map job.truncate l
         = (if ownerId \<in> u_id ` set (t_rows ut)
            then filter (\<lambda>j. j_created_by j = ownerId) (t_rows jt) else [])"
    using getAllJobs_rows[OF assms] by blast
  have "\<exists>u \<in> set (t_rows ut). u_id u = ownerId \<and> creator_name x = u_name u" if "x \<in> set l" for x
    using that l(1) assms(1,2) by (fastforce simp: getAllJobs_def join_users_set)
  moreover have "mset (map job.truncate l)
      = (if ownerId \<in> u_id ` set (t_rows ut)
         then mset (filter (\<lambda>j. j_created_by j = ownerId) (t_rows jt)) else {#})"
    unfolding l(2) by simp
  ultimately show ?thesis using l(1) by blast
qed

theorem getAllJobs_exact_witness:
  "jobs ex_db = Some ex_jobs \<and> users ex_db = Some ex_users
   \<and> distinct (map u_id (t_rows ex_users))
   \<and> (\<exists>l. getAllJobs ex_db 1 = Inr l \<and> mset (map job.truncate l) = {#ex_job1#})
   \<and> getAllJobs ex_db 1 = Inr [job.extend ex_job1 (listed_job.fields (Some ''Alice''))]
   \<and> (\<exists>l. getAllJobs ex_db_stray 99 = Inr l \<and> mset (map job.truncate l) = {#})"
proof -
  have h1: "jobs ex_db = Some ex_jobs" and h2: "users ex_db = Some ex_users"
    by (simp_all add: ex_db_def)
  have h3: "distinct (map u_id (t_rows ex_users))"
    by (simp add: ex_users_def ex_alice_def ex_bob_def)
  have ids: "u_id ` set (t_rows ex_users) = {1, 2}"
    by (simp add: ex_users_def ex_alice_def ex_bob_def)
  have f: "filter (\<lambda>j. j_created_by j = 1) (t_rows ex_jobs) = [ex_job1]"
    by (simp add: ex_jobs_def ex_job1_def ex_job2_def)
  from getAllJobs_exact[OF h1 h2 h3, of 1, unfolded f ids]
  obtain l where "getAllJobs ex_db 1 = Inr l" and "mset (map job.truncate l) = mset [ex_job1]"
    by auto
  then have a: "\<exists>l. getAllJobs ex_db 1 = Inr l \<and> mset (map job.truncate l) = {#ex_job1#}"
    by simp
  have b: "getAllJobs ex_db 1 = Inr [job.extend ex_job1 (listed_job.fields (Some ''Alice''))]"
    by (simp add: getAllJobs_def h1 h2 join_users_def select_listed_def ex_jobs_def ex_users_def
          ex_job1_def ex_job2_def ex_alice_def ex_bob_def)
  from getAllJobs_exact[OF ex_db_stray_facts h3, of 99, unfolded ids]
  obtain l' where "getAllJobs ex_db_stray 99 = Inr l'" and "mset (map job.truncate l') = {#}"
    by auto
  then have c: "\<exists>l. getAllJobs ex_db_stray 99 = Inr l \<and> mset (map job.truncate l) = {#}"
    by blast
  show ?thesis
    using h1 h2 h3 a b c by blast
qed

text \<open>
  C8 as stated fails: on a connection that does not enforce foreign keys, \<open>createJob\<close>
  stores a job for the owner 99, who is no account; \<open>getSingleJob\<close> finds that row for
  its owner, and \<open>getAllJobs\<close> returns nothing for the same owner.
\<close>

theorem getAllJobs_stray_counterexample:
  "createJob ex_db 500 ex_stray
     = Inr (ex_db_stray, \<lparr>r_id = 3, r_role = Some ''Engineer'', r_company = Some ''Acme'',
                           r_status = Some ''pending'', r_createdBy = 99\<rparr>)
   \<and> getSingleJob ex_db_stray 3 99 = Inr (Some ex_job3)
   \<and> j_created_by ex_job3 = 99
   \<and> getAllJobs ex_db_stray 99 = Inr []"
proof -
  have a: "getSingleJob ex_db_stray 3 99 = Inr (Some ex_job3)"
    unfolding getSingleJob_def ex_db_stray_facts(1)
    by (simp add: owned_def ex_job1_def ex_job2_def ex_job3_def)
  have b: "getAllJobs ex_db_stray 99 = Inr []"
    unfolding getAllJobs_def ex_db_stray_facts
    by (simp add: join_users_def ex_users_def ex_alice_def ex_bob_def
          ex_job1_def ex_job2_def ex_job3_def)
  have c: "j_created_by ex_job3 = 99"
    by (simp add: ex_job3_def)
  show ?thesis
    using ex_stray_created a b c by simp
qed

text \<open>
  C9.  \<open>initTable\<close> of either model creates its table only when the table is absent: a
  database that already has the table comes back as it is, schema and rows included,
  whatever that schema is; so a second call changes nothing after the first, for each
  model and for the two calls the server makes at start-up.  An absent table is created
  empty with the declared schema.
\<close>

theorem initTable_idempotent:
  "User_initTable (User_initTable d) = User_initTable d
   \<and> Job_initTable (Job_initTable d) = Job_initTable d
   \<and> Job_initTable (User_initTable (Job_initTable (User_initTable d)))
       = Job_initTable (User_initTable d)
   \<and> (users d \<noteq> None \<longrightarrow> User_initTable d = d)
   \<and> (jobs d \<noteq> None \<longrightarrow> Job_initTable d = d)
   \<and> (users d = None \<longrightarrow>
        User_initTable d = d\<lparr>users := Some \<lparr>t_schema = users_schema, t_rows = [], t_seq = 0\<rparr>\<rparr>)
   \<and> (jobs d = None \<longrightarrow>
        Job_initTable d = d\<lparr>jobs := Some \<lparr>t_schema = jobs_schema, t_rows = [], t_seq = 0\<rparr>\<rparr>)"
  by (simp add: User_initTable_def Job_initTable_def)

theorem initTable_idempotent_witness:
  "users ex_legacy \<noteq> None \<and> User_initTable ex_legacy = ex_legacy
   \<and> jobs ex_db \<noteq> None \<and> Job_initTable ex_db = ex_db
   \<and> users ex_empty = None
   \<and> User_initTable ex_empty
       = ex_empty\<lparr>users := Some \<lparr>t_schema = users_schema, t_rows = [], t_seq = 0\<rparr>\<rparr>
   \<and> User_initTable (User_initTable ex_empty) = User_initTable ex_empty"
proof -
  have a: "users ex_legacy \<noteq> None"
    by (simp add: ex_legacy_def)
  have b: "jobs ex_db \<noteq> None"
    by (simp add: ex_db_def)
  have c: "users ex_empty = None"
    by (simp add: ex_empty_def)
  show ?thesis
    using a b c initTable_idempotent[of ex_legacy] initTable_idempotent[of ex_db]
      initTable_idempotent[of ex_empty]
    by blast
qed

text \<open>
  C10.  \<open>updateJob\<close> and \<open>deleteJob\<close> touch only the \<open>jobs\<close> rows that match both the key
  and the owner.  After a successful \<open>updateJob\<close> the table has the same number of rows
  and every row with another key or another owner stands unchanged in its place; after
  \<open>deleteJob\<close> the table holds exactly the rows with another key or another owner, in
  their order.  Nothing else of the database changes.  When no row matches both,
  \<open>updateJob\<close> returns the database as it was with no row (\<open>undefined\<close>), and
  \<open>deleteJob\<close> returns it as it was with the count 0.
\<close>

theorem updateJob_deleteJob_frame:
  assumes "jobs d = Some t"
  shows "(\<forall>now p d' res. updateJob d now jobId userId p = Inr (d', res) \<longrightarrow>
            (\<exists>rows'. d' = d\<lparr>jobs := Some (t\<lparr>t_rows := rows'\<rparr>)\<rparr>
               \<and> length rows' = length (t_rows t)
               \<and> (\<forall>i < length (t_rows t).
                     j_id (t_rows t ! i) \<noteq> jobId \<or> j_created_by (t_rows t ! i) \<noteq> userId
                     \<longrightarrow> rows' ! i = t_rows t ! i)))
       \<and> (\<exists>n. deleteJob d jobId userId
               = Inr (d\<lparr>jobs := Some (t\<lparr>t_rows :=
                        filter (\<lambda>j. j_id j \<noteq> jobId \<or> j_created_by j \<noteq> userId) (t_rows t)\<rparr>)\<rparr>, n))
       \<and> ((\<forall>j \<in> set (t_rows t). j_id j \<noteq> jobId \<or> j_created_by j \<noteq> userId) \<longrightarrow>
            (\<forall>now p. updateJob d now jobId userId p = Inr (d, None))
            \<and> deleteJob d jobId userId = Inr (d, 0))"
proof (intro conjI allI impI)
  fix now p d' res
  assume u: "updateJob d now jobId userId p = Inr (d', res)"
  let ?rows' = "map (\<lambda>j. if owned jobId userId j then apply_updates (make_updates now p) j else j)
                  (t_rows t)"
  have "d' = d\<lparr>jobs := Some (t\<lparr>t_rows := ?rows'\<rparr>)\<rparr>"
    using updateJob_rows(1)[OF assms u] .
  moreover have "length ?rows' = length (t_rows t)"
    by simp
  moreover have "\<forall>i < length (t_rows t).
      j_id (t_rows t ! i) \<noteq> jobId \<or> j_created_by (t_rows t ! i) \<noteq> userId
      \<longrightarrow> ?rows' ! i = t_rows t ! i"
    by (auto simp: owned_def)
  ultimately show "\<exists>rows'. d' = d\<lparr>jobs := Some (t\<lparr>t_rows := rows'\<rparr>)\<rparr>
               \<and> length rows' = length (t_rows t)
               \<and> (\<forall>i < length (t_rows t).
                     j_id (t_rows t ! i) \<noteq> jobId \<or> j_created_by (t_rows t ! i) \<noteq> userId
                     \<longrightarrow> rows' ! i = t_rows t ! i)"
    by blast
next
  have "(\<lambda>j. \<not> owned jobId userId j) = (\<lambda>j. j_id j \<noteq> jobId \<or> j_created_by j \<noteq> userId)"
    by (auto simp: owned_def)
  then show "\<exists>n. deleteJob d jobId userId
               = Inr (d\<lparr>jobs := Some (t\<lparr>t_rows :=
                        filter (\<lambda>j. j_id j \<noteq> jobId \<or> j_created_by j \<noteq> userId) (t_rows t)\<rparr>)\<rparr>, n)"
    using deleteJob_rows[OF assms, of jobId userId] by simp
next
  fix now p
  assume "\<forall>j \<in> set (t_rows t). j_id j \<noteq> jobId \<or> j_created_by j \<noteq> userId"
  then have "\<not> list_ex (owned jobId userId) (t_rows t)"
    by (auto simp: list_ex_iff owned_def)
  then show "updateJob d now jobId userId p = Inr (d, None)"
    using updateJob_no_match[OF assms] by blast
next
  assume "\<forall>j \<in> set (t_rows t). j_id j \<noteq> jobId \<or> j_created_by j \<noteq> userId"
  then have "\<not> list_ex (owned jobId userId) (t_rows t)"
    by (auto simp: list_ex_iff owned_def)
  then show "deleteJob d jobId userId = Inr (d, 0)"
    using deleteJob_no_match[OF assms] by blast
qed

theorem updateJob_deleteJob_frame_witness:
  "jobs ex_db = Some ex_jobs
   \<and> updateJob ex_db 500 1 2 ex_payload = Inr (ex_db, None)
   \<and> deleteJob ex_db 1 2 = Inr (ex_db, 0)
   \<and> (\<exists>n. deleteJob ex_db 1 1 = Inr (ex_db\<lparr>jobs := Some (ex_jobs\<lparr>t_rows := [ex_job2]\<rparr>)\<rparr>, n))"
proof -
  have h: "jobs ex_db = Some ex_jobs"
    by (simp add: ex_db_def)
  show ?thesis
    using h updateJob_deleteJob_frame[OF h, of 1 2] updateJob_deleteJob_frame[OF h, of 1 1]
    by (simp add: ex_jobs_def ex_job1_def ex_job2_def)
qed

end
